theory Spec2Isabelle
  imports Complex_Main
begin

section \<open>Conventions\<close>

text \<open>
  The development embeds the signal-processing core of the Neuro-Fade extension:
  the effect engine (\<^verbatim>\<open>FadeEngine\<close>), the score aggregator
  (\<^verbatim>\<open>NeuroFadeDetector\<close>), the frame analyzer (\<^verbatim>\<open>FrameAnalyzer\<close>)
  and the histogram distance of the accelerator bridge (\<^verbatim>\<open>NPUBridge\<close>).

  JavaScript numbers are modelled as reals. Where a property does not depend on it, the
  rounding of IEEE doubles is left out. Where it matters, the rounding errors are explicit
  inputs of the model: in the animation loop (\<open>step_key_rounded\<close>), whose number of
  ticks depends on a comparison with 0.001, and in the accelerator graph
  (\<open>sceneCutGraph\<close>), which computes in float32. Wall-clock readings
  (\<^verbatim>\<open>Date.now()\<close>) are integers in milliseconds and are passed to every operation
  that reads the clock. DOM side effects (style properties, overlays, audio nodes) are
  left out; the fields of the objects that the operations read and write are kept.
\<close>

section \<open>Constants (NEURO\_FADE\_CONSTANTS)\<close>

definition THRESHOLDS_LOW :: real where "THRESHOLDS_LOW = 25"
definition THRESHOLDS_MODERATE :: real where "THRESHOLDS_MODERATE = 45"
definition THRESHOLDS_HIGH :: real where "THRESHOLDS_HIGH = 65"
definition THRESHOLDS_CRITICAL :: real where "THRESHOLDS_CRITICAL = 85"

definition GRAYSCALE_max :: real where "GRAYSCALE_max = 1"
definition PLAYBACK_RATE_min :: real where "PLAYBACK_RATE_min = 0.85"
definition PLAYBACK_RATE_max :: real where "PLAYBACK_RATE_max = 1.0"
definition BRIGHTNESS_min :: real where "BRIGHTNESS_min = 0.7"
definition BRIGHTNESS_max :: real where "BRIGHTNESS_max = 1.0"
definition SATURATION_min :: real where "SATURATION_min = 0.2"
definition SATURATION_max :: real where "SATURATION_max = 1.0"
definition BLUR_max :: real where "BLUR_max = 1.5"

lemmas THRESHOLDS_defs =
  THRESHOLDS_LOW_def THRESHOLDS_MODERATE_def THRESHOLDS_HIGH_def THRESHOLDS_CRITICAL_def

lemmas EFFECTS_defs =
  GRAYSCALE_max_def PLAYBACK_RATE_min_def PLAYBACK_RATE_max_def BRIGHTNESS_min_def
  BRIGHTNESS_max_def SATURATION_min_def SATURATION_max_def BLUR_max_def

section \<open>The effect engine (FadeEngine)\<close>

subsection \<open>State\<close>

text \<open>
  An effect set is a JavaScript object with six numeric properties; the animation loop
  walks them with \<^verbatim>\<open>Object.keys\<close>, so the object is a total map from the six keys.
\<close>

datatype channel = grayscale | saturation | brightness | blur | playbackRate | audioIntensity

type_synonym effects = "channel \<Rightarrow> real"

definition keys :: "channel list" where
  "keys = [grayscale, saturation, brightness, blur, playbackRate, audioIntensity]"

definition effects_of :: "real \<Rightarrow> real \<Rightarrow> real \<Rightarrow> real \<Rightarrow> real \<Rightarrow> real \<Rightarrow> effects" where
  "effects_of g s b bl p a =
     (\<lambda>k. case k of grayscale \<Rightarrow> g | saturation \<Rightarrow> s | brightness \<Rightarrow> b
                   | blur \<Rightarrow> bl | playbackRate \<Rightarrow> p | audioIntensity \<Rightarrow> a)"

text \<open>
  \<open>animationFrame\<close> records whether a \<^verbatim>\<open>requestAnimationFrame\<close> callback is
  pending. \<open>timeouts\<close> holds the pending \<^verbatim>\<open>setTimeout\<close> callbacks of
  \<^verbatim>\<open>breathe\<close>: the time at which each is due and the \<^verbatim>\<open>savedTarget\<close> its closure
  captured.
\<close>

record engine =
  currentEffects :: effects
  targetEffects :: effects
  animationFrame :: bool
  isAnimating :: bool
  breatheMode :: bool
  timeouts :: "(int \<times> effects) list"

definition neutral :: effects where
  "neutral = effects_of 0 1 1 0 1 0"

definition constructor :: engine where
  "constructor = \<lparr> currentEffects = neutral, targetEffects = neutral,
     animationFrame = False, isAnimating = False, breatheMode = False, timeouts = [] \<rparr>"

subsection \<open>update: score to target effects\<close>

text \<open>The local variable \<^verbatim>\<open>intensity\<close> of the else branch of \<^verbatim>\<open>update\<close>.\<close>

definition intensity :: "real \<Rightarrow> real" where
  "intensity dopamineScore =
     min (if dopamineScore < THRESHOLDS_MODERATE then
            (dopamineScore - THRESHOLDS_LOW) / (THRESHOLDS_MODERATE - THRESHOLDS_LOW) * 0.25
          else if dopamineScore < THRESHOLDS_HIGH then
            0.25 + (dopamineScore - THRESHOLDS_MODERATE) / (THRESHOLDS_HIGH - THRESHOLDS_MODERATE) * 0.35
          else if dopamineScore < THRESHOLDS_CRITICAL then
            0.60 + (dopamineScore - THRESHOLDS_HIGH) / (THRESHOLDS_CRITICAL - THRESHOLDS_HIGH) * 0.25
          else
            0.85 + (dopamineScore - THRESHOLDS_CRITICAL) / (100 - THRESHOLDS_CRITICAL) * 0.15) 1"

text \<open>The object that \<^verbatim>\<open>update\<close> assigns to \<^verbatim>\<open>this.targetEffects\<close>.\<close>

definition scoreTarget :: "real \<Rightarrow> effects" where
  "scoreTarget dopamineScore =
     (if dopamineScore < THRESHOLDS_LOW then effects_of 0 1 1 0 1 0
      else let i = intensity dopamineScore in
        effects_of
          (i * GRAYSCALE_max)
          (SATURATION_max - i * (SATURATION_max - SATURATION_min))
          (BRIGHTNESS_max - i * (BRIGHTNESS_max - BRIGHTNESS_min))
          (i * BLUR_max)
          (PLAYBACK_RATE_max - i * (PLAYBACK_RATE_max - PLAYBACK_RATE_min))
          i)"

definition startAnimation :: "engine \<Rightarrow> engine" where
  "startAnimation s = s\<lparr> isAnimating := True, animationFrame := True \<rparr>"

definition update :: "real \<Rightarrow> engine \<Rightarrow> engine" where
  "update dopamineScore s =
     (let s' = s\<lparr> targetEffects := scoreTarget dopamineScore \<rparr>
      in if \<not> isAnimating s' then startAnimation s' else s')"

subsection \<open>The animation loop\<close>

definition lerp :: real where "lerp = 0.06"

text \<open>
  One run of the \<^verbatim>\<open>step\<close> closure: the loop over the keys updates
  \<^verbatim>\<open>currentEffects\<close> in place and raises \<^verbatim>\<open>stillAnimating\<close>; afterwards the
  next frame is requested or the loop is marked idle.
\<close>

definition step_key :: "effects \<Rightarrow> channel \<Rightarrow> effects \<times> bool \<Rightarrow> effects \<times> bool" where
  "step_key target key acc =
     (let cur = fst acc; stillAnimating = snd acc; diff = target key - cur key
      in if \<bar>diff\<bar> > 0.001 then (cur(key := cur key + diff * lerp), True)
         else (cur(key := target key), stillAnimating))"

definition step :: "engine \<Rightarrow> engine" where
  "step s =
     (let r = fold (step_key (targetEffects s)) keys (currentEffects s, False)
      in if snd r then s\<lparr> currentEffects := fst r, animationFrame := True \<rparr>
         else s\<lparr> currentEffects := fst r, animationFrame := False, isAnimating := False \<rparr>)"

text \<open>The browser delivers an animation frame: the pending callback, if any, runs.\<close>

definition frame :: "engine \<Rightarrow> engine" where
  "frame s = (if animationFrame s then step s else s)"

text \<open>
  The same step in the double-precision arithmetic of JavaScript, with the rounding as an
  input. For every channel, the computed \<^verbatim>\<open>diff\<close> is the exact difference plus
  \<open>diffErr\<close>; the literal \<^verbatim>\<open>0.001\<close> denotes the double \<open>0.001 + thresholdErr\<close>;
  the value stored by \<^verbatim>\<open>+=\<close> (the product with the double nearest to 0.06, then
  the sum) is the exact one plus \<open>stepErr\<close>. \<^verbatim>\<open>Math.abs\<close> and the assignment of the
  target are exact. With all errors 0 this is \<open>step_key\<close>.
\<close>

record rounding =
  diffErr :: real
  thresholdErr :: real
  stepErr :: real

definition step_key_rounded ::
  "(channel \<Rightarrow> rounding) \<Rightarrow> effects \<Rightarrow> channel \<Rightarrow> effects \<times> bool \<Rightarrow> effects \<times> bool" where
  "step_key_rounded err target key acc =
     (let cur = fst acc; stillAnimating = snd acc;
          diff = target key - cur key + diffErr (err key)
      in if \<bar>diff\<bar> > 0.001 + thresholdErr (err key)
         then (cur(key := cur key + diff * lerp + stepErr (err key)), True)
         else (cur(key := target key), stillAnimating))"

definition step_rounded :: "(channel \<Rightarrow> rounding) \<Rightarrow> engine \<Rightarrow> engine" where
  "step_rounded err s =
     (let r = fold (step_key_rounded err (targetEffects s)) keys (currentEffects s, False)
      in if snd r then s\<lparr> currentEffects := fst r, animationFrame := True \<rparr>
         else s\<lparr> currentEffects := fst r, animationFrame := False, isAnimating := False \<rparr>)"

definition frame_rounded :: "(channel \<Rightarrow> rounding) \<Rightarrow> engine \<Rightarrow> engine" where
  "frame_rounded err s = (if animationFrame s then step_rounded err s else s)"

subsection \<open>breathe\<close>

definition calming :: effects where
  "calming = effects_of 0.6 0.4 0.85 0.8 0.9 0.5"

definition breathe :: "int \<Rightarrow> engine \<Rightarrow> engine" where
  "breathe now s =
     (let savedTarget = targetEffects s
      in s\<lparr> breatheMode := True, targetEffects := calming,
            timeouts := timeouts s @ [(now + 5000, savedTarget)] \<rparr>)"



section \<open>Histogram distance\<close>

text \<open>
  Reading past the end of an array yields \<^verbatim>\<open>undefined\<close>; arithmetic on it yields
  NaN, and every comparison with NaN is false.
\<close>

definition js_index :: "'a list \<Rightarrow> nat \<Rightarrow> 'a option" where
  "js_index xs i = (if i < length xs then Some (xs ! i) else None)"

text \<open>
  The body of the loop of \<^verbatim>\<open>_histogramDiff\<close>: bin \<open>i\<close> (below the length of
  \<open>h1\<close>) adds its term to \<open>diff\<close> when the bin sum is positive. A bin that \<open>h2\<close> does
  not have makes the sum NaN, so the comparison fails and the bin is skipped.
\<close>

definition chi_term :: "real list \<Rightarrow> real list \<Rightarrow> nat \<Rightarrow> real \<Rightarrow> real" where
  "chi_term h1 h2 i diff =
     (case js_index h2 i of
        None \<Rightarrow> diff
      | Some b \<Rightarrow> (let a = h1 ! i; sum = a + b
                  in if sum > 0 then diff + (a - b)\<^sup>2 / sum else diff))"

text \<open>
  \<^verbatim>\<open>FrameAnalyzer._histogramDiff\<close>. The result is a number or NaN: \<open>None\<close> stands
  for the NaN that the final division \<^verbatim>\<open>0 / 0\<close> yields when \<open>h1\<close> is empty.
\<close>

definition histogramDiff :: "real list \<Rightarrow> real list \<Rightarrow> real option" where
  "histogramDiff h1 h2 =
     (let diff = fold (chi_term h1 h2) [0..<length h1] 0
      in if length h1 = 0 then None else Some (diff / real (length h1)))"

text \<open>\<^verbatim>\<open>NPUBridge._jsHistogramDistance\<close>, the fallback of the bridge: the same loop.\<close>

definition jsHistogramDistance :: "real list \<Rightarrow> real list \<Rightarrow> real option" where
  "jsHistogramDistance h1 h2 =
     (let diff = fold (chi_term h1 h2) [0..<length h1] 0
      in if length h1 = 0 then None else Some (diff / real (length h1)))"

text \<open>
  The graph that \<^verbatim>\<open>_buildSceneCutGraph\<close> builds over two inputs of shape [1, 48]:
  each builder call is an elementwise operation on the 48 cells, \<^verbatim>\<open>reduceMean\<close>
  averages them. All tensors are float32, so every operation delivers its exact result
  times a factor \<open>1 + err\<close>, and the constant \<^verbatim>\<open>1e-10\<close> is stored as the nearest
  float32. These relative errors are inputs of the model, one record per cell:
  \<open>subErr\<close>, \<open>mulErr\<close>, \<open>addErr\<close>, \<open>denErr\<close> and \<open>divErr\<close> for the five elementwise
  operations, \<open>epsErr\<close> for the stored constant, and \<open>meanErr\<close> for what the cell's term
  picks up in \<^verbatim>\<open>reduceMean\<close> (the additions it passes through, in whatever order the
  backend sums, and the division by the number of cells). The inputs are the values held
  in the two \<^verbatim>\<open>Float32Array\<close>s.
\<close>

record rounding32 =
  subErr :: real
  mulErr :: real
  addErr :: real
  epsErr :: real
  denErr :: real
  divErr :: real
  meanErr :: real

definition rounded :: "real \<Rightarrow> real \<Rightarrow> real" where
  "rounded err x = x * (1 + err)"

definition reduceMean :: "real list \<Rightarrow> real list \<Rightarrow> real" where
  "reduceMean errs xs = sum_list (map2 rounded errs xs) / real (length xs)"

definition sceneCutGraph :: "rounding32 list \<Rightarrow> real list \<Rightarrow> real list \<Rightarrow> real" where
  "sceneCutGraph errs hist1 hist2 =
     (let diff = map2 rounded (map subErr errs) (map2 (-) hist1 hist2);
          diffSquared = map2 rounded (map mulErr errs) (map2 (*) diff diff);
          sum = map2 rounded (map addErr errs) (map2 (+) hist1 hist2);
          epsilon = map2 rounded (map epsErr errs) (replicate 48 (1 / 10 ^ 10));
          denominator = map2 rounded (map denErr errs) (map2 (+) sum epsilon);
          chiTerms = map2 rounded (map divErr errs) (map2 (/) diffSquared denominator)
      in reduceMean (map meanErr errs) chiTerms)"

section \<open>The frame analyzer (FrameAnalyzer)\<close>

definition HISTOGRAM_BINS :: nat where "HISTOGRAM_BINS = 16"
definition SCENE_CUT_DIFF_THRESHOLD :: real where "SCENE_CUT_DIFF_THRESHOLD = 0.35"
definition HIGH_CUT_RATE :: real where "HIGH_CUT_RATE = 8"
definition SCENE_CUT_MOTION_THRESHOLD :: real where "SCENE_CUT_MOTION_THRESHOLD = 0.25"
definition SCENE_CUT_WINDOW :: int where "SCENE_CUT_WINDOW = 3000"

text \<open>
  A video element as the analyzer and the detector see it. \<open>pixels\<close> is the outcome of
  drawing the element onto the analyzer's canvas and reading the canvas back
  (\<^verbatim>\<open>drawImage\<close>, \<^verbatim>\<open>getImageData\<close>): the RGBA bytes, or the exception that a
  cross-origin or unavailable frame raises. \<open>visibleArea\<close> is the area of the element's
  bounding rectangle inside the viewport, as \<^verbatim>\<open>_getActiveVideo\<close> computes it from
  the layout.
\<close>

datatype exn = SecurityError | InvalidStateError

record video =
  paused :: bool
  ended :: bool
  readyState :: nat
  videoWidth :: nat
  offsetParent :: bool
  visibleArea :: real
  pixels :: "exn + nat list"

record analyzer =
  previousHistogram :: "real list option"
  sceneCuts :: "int list"
  motionScores :: "real list"
  frameCount :: nat
  lastFrameData :: "nat list option"
  BINS :: nat
  DIFF_THRESHOLD :: real
  MOTION_THRESHOLD :: real
  CUT_WINDOW :: int

definition newFrameAnalyzer :: analyzer where
  "newFrameAnalyzer = \<lparr> previousHistogram = None, sceneCuts = [], motionScores = [],
     frameCount = 0, lastFrameData = None, BINS = HISTOGRAM_BINS,
     DIFF_THRESHOLD = SCENE_CUT_DIFF_THRESHOLD, MOTION_THRESHOLD = SCENE_CUT_MOTION_THRESHOLD,
     CUT_WINDOW = SCENE_CUT_WINDOW \<rparr>"

text \<open>
  \<^verbatim>\<open>_computeHistogram\<close>. The loop takes four bytes per round; a write to a typed
  array outside its range is dropped, as \<open>list_update\<close> does. The image data of the
  analyzer's 160 by 90 canvas always holds four bytes per pixel and at least one pixel.
\<close>

definition bump :: "nat \<Rightarrow> real list \<Rightarrow> real list" where
  "bump i histogram = histogram[i := histogram ! i + 1]"

definition bin_of :: "nat \<Rightarrow> nat \<Rightarrow> nat" where
  "bin_of bins v = nat \<lfloor>real v / (256 / real bins)\<rfloor>"

fun count_pixels :: "nat \<Rightarrow> nat list \<Rightarrow> real list \<Rightarrow> real list" where
  "count_pixels bins (r # g # b # a # data) histogram =
     count_pixels bins data
       (bump (bins * 2 + bin_of bins b) (bump (bins + bin_of bins g) (bump (bin_of bins r) histogram)))"
| "count_pixels bins [r, g, b] histogram =
     bump (bins * 2 + bin_of bins b) (bump (bins + bin_of bins g) (bump (bin_of bins r) histogram))"
| "count_pixels bins [r, g] histogram = bump (bins + bin_of bins g) (bump (bin_of bins r) histogram)"
| "count_pixels bins [r] histogram = bump (bin_of bins r) histogram"
| "count_pixels bins [] histogram = histogram"

definition computeHistogram :: "nat \<Rightarrow> nat list \<Rightarrow> real list" where
  "computeHistogram bins data =
     (let pixelCount = real (length data) / 4;
          histogram = count_pixels bins data (replicate (bins * 3) 0)
      in map (\<lambda>x. x / pixelCount) histogram)"

text \<open>
  \<^verbatim>\<open>_computeMotion\<close>: every 16th pixel of the current buffer against the previous
  one. Both buffers come from the same canvas, so they have the same length.
\<close>

definition byte_at :: "nat list \<Rightarrow> nat \<Rightarrow> real" where
  "byte_at data i = (if i < length data then real (data ! i) else 0)"

definition motion_term :: "nat list \<Rightarrow> nat list \<Rightarrow> nat \<Rightarrow> real \<Rightarrow> real" where
  "motion_term currentData lastData i diffSum =
     (let dr = \<bar>byte_at currentData i - byte_at lastData i\<bar>;
          dg = \<bar>byte_at currentData (i + 1) - byte_at lastData (i + 1)\<bar>;
          db = \<bar>byte_at currentData (i + 2) - byte_at lastData (i + 2)\<bar>
      in diffSum + (dr + dg + db) / (3 * 255))"

definition computeMotion :: "nat list option \<Rightarrow> nat list \<Rightarrow> real" where
  "computeMotion lastData currentData =
     (case lastData of
        None \<Rightarrow> 0
      | Some previous \<Rightarrow>
          (let pixelCount = real (length currentData) / 4;
               diffSum = fold (motion_term currentData previous)
                           (map (\<lambda>j. 64 * j) [0..<(length currentData + 63) div 64]) 0
           in diffSum / (pixelCount / 16)))"

definition average :: "real list \<Rightarrow> real" where
  "average arr = (if length arr = 0 then 0 else sum_list arr / real (length arr))"

record analysis =
  isSceneCut :: bool
  motionScore :: real
  cutRate :: real
  avgMotion :: real
  frames :: nat
  histogram :: "real list"

text \<open>
  The statements of the \<^verbatim>\<open>try\<close> block of \<^verbatim>\<open>analyzeFrame\<close> that follow the
  capture. The distance that the accelerator bridge may compute alongside is dropped by
  the source and is not modelled.
\<close>

definition analyzeCaptured :: "int \<Rightarrow> nat list \<Rightarrow> analyzer \<Rightarrow> analysis \<times> analyzer" where
  "analyzeCaptured now data fa =
     (let hist = computeHistogram (BINS fa) data;
          motion = computeMotion (lastFrameData fa) data;
          cut = (case previousHistogram fa of
                   None \<Rightarrow> False
                 | Some prev \<Rightarrow>
                     (case histogramDiff prev hist of
                        None \<Rightarrow> False
                      | Some diff \<Rightarrow> diff > DIFF_THRESHOLD fa));
          pushed = (if cut then sceneCuts fa @ [now] else sceneCuts fa);
          cuts = filter (\<lambda>t. now - t < CUT_WINDOW fa) pushed;
          windowSeconds = real_of_int (CUT_WINDOW fa) / 1000;
          rate = real (length cuts) / windowSeconds * 10;
          count = frameCount fa + 1;
          scores = motionScores fa @ [motion];
          scores' = (if length scores > 20 then tl scores else scores)
      in (\<lparr> isSceneCut = cut, motionScore = motion, cutRate = rate,
             avgMotion = average scores', frames = count, histogram = hist \<rparr>,
          fa\<lparr> sceneCuts := cuts, previousHistogram := Some hist, lastFrameData := Some data,
              frameCount := count, motionScores := scores' \<rparr>))"

text \<open>
  \<^verbatim>\<open>analyzeFrame\<close>: the guard, then the \<^verbatim>\<open>try\<close> block. Only the capture can
  raise, and it runs before any field is written; the \<^verbatim>\<open>catch\<close> clause turns the
  exception into the result \<^verbatim>\<open>null\<close> (\<open>None\<close>).
\<close>

definition analyzeFrame :: "int \<Rightarrow> video option \<Rightarrow> analyzer \<Rightarrow> analysis option \<times> analyzer" where
  "analyzeFrame now videoElement fa =
     (case videoElement of
        None \<Rightarrow> (None, fa)
      | Some v \<Rightarrow>
          if paused v \<or> ended v \<or> readyState v < 2 \<or> videoWidth v = 0 then (None, fa)
          else (case pixels v of
                  Inl e \<Rightarrow> (None, fa)
                | Inr data \<Rightarrow> (let r = analyzeCaptured now data fa in (Some (fst r), snd r))))"

record metrics =
  metricsCutRate :: real
  metricsAvgMotion :: real
  totalFrames :: nat
  recentCuts :: nat

definition getMetrics :: "analyzer \<Rightarrow> metrics" where
  "getMetrics fa =
     \<lparr> metricsCutRate = (if length (sceneCuts fa) > 0
                          then real (length (sceneCuts fa)) / (real_of_int (CUT_WINDOW fa) / 1000) * 10
                          else 0),
       metricsAvgMotion = average (motionScores fa),
       totalFrames = frameCount fa,
       recentCuts = length (sceneCuts fa) \<rparr>"

section \<open>The detector (NeuroFadeDetector)\<close>

definition VELOCITY_THRESHOLD :: real where "VELOCITY_THRESHOLD = 800"
definition RAPID_SCROLL_COUNT :: real where "RAPID_SCROLL_COUNT = 5"
definition RAPID_SCROLL_WINDOW :: int where "RAPID_SCROLL_WINDOW = 10000"
definition INFINITE_SCROLL_THRESHOLD :: real where "INFINITE_SCROLL_THRESHOLD = 20"

definition W_SCENE_CUTS :: real where "W_SCENE_CUTS = 0.30"
definition W_SCROLL_VELOCITY :: real where "W_SCROLL_VELOCITY = 0.25"
definition W_TIME_ON_PAGE :: real where "W_TIME_ON_PAGE = 0.20"
definition W_CONTENT_CHANGES :: real where "W_CONTENT_CHANGES = 0.15"
definition W_VIDEO_COUNT :: real where "W_VIDEO_COUNT = 0.10"

lemmas SCORE_WEIGHTS_defs =
  W_SCENE_CUTS_def W_SCROLL_VELOCITY_def W_TIME_ON_PAGE_def W_CONTENT_CHANGES_def
  W_VIDEO_COUNT_def

lemmas SCROLL_defs =
  VELOCITY_THRESHOLD_def RAPID_SCROLL_COUNT_def RAPID_SCROLL_WINDOW_def
  INFINITE_SCROLL_THRESHOLD_def

record scrollEvent =
  time :: int
  velocity :: real
  dy :: real

record detector =
  frameAnalyzer :: analyzer
  enabled :: bool
  sensitivity :: real
  dopamineScore :: real
  startTime :: int
  videos :: "video list"
  scrollEvents :: "scrollEvent list"
  lastScrollY :: real
  lastScrollTime :: int
  domHeightChanges :: "int list"
  lastDOMHeight :: real

text \<open>
  The constructor, at clock reading \<open>now\<close> on a page scrolled to \<open>scrollY\<close> whose body
  has the height \<open>scrollHeight\<close>.
\<close>

definition newDetector :: "int \<Rightarrow> real \<Rightarrow> real \<Rightarrow> detector" where
  "newDetector now scrollY scrollHeight =
     \<lparr> frameAnalyzer = newFrameAnalyzer, enabled = True, sensitivity = 0.5, dopamineScore = 0,
       startTime = now, videos = [], scrollEvents = [], lastScrollY = scrollY,
       lastScrollTime = now, domHeightChanges = [], lastDOMHeight = scrollHeight \<rparr>"

text \<open>The scroll listener, called at \<open>now\<close> with the page scrolled to \<open>scrollY\<close>.\<close>

definition scrollHandler :: "int \<Rightarrow> real \<Rightarrow> detector \<Rightarrow> detector" where
  "scrollHandler now scrollY d =
     (let dy = \<bar>scrollY - lastScrollY d\<bar>;
          elapsed = real_of_int (now - lastScrollTime d) / 1000;
          dt = (if elapsed = 0 then 0.001 else elapsed);
          velocity = dy / dt;
          events = scrollEvents d @ [\<lparr> time = now, velocity = velocity, dy = dy \<rparr>]
      in d\<lparr> scrollEvents := filter (\<lambda>e. now - time e < RAPID_SCROLL_WINDOW) events,
            lastScrollY := scrollY, lastScrollTime := now \<rparr>)"

text \<open>The 500 ms poll of the document height.\<close>

definition domPoll :: "int \<Rightarrow> real \<Rightarrow> detector \<Rightarrow> detector" where
  "domPoll now currentHeight d =
     (if currentHeight \<noteq> lastDOMHeight d then
        d\<lparr> domHeightChanges :=
              filter (\<lambda>t. now - t < RAPID_SCROLL_WINDOW) (domHeightChanges d @ [now]),
           lastDOMHeight := currentHeight \<rparr>
      else d)"

text \<open>\<^verbatim>\<open>_getActiveVideo\<close> and the sampling tick \<^verbatim>\<open>_analyzeActiveVideo\<close>.\<close>

definition pick_video :: "video \<Rightarrow> video option \<times> real \<Rightarrow> video option \<times> real" where
  "pick_video v best =
     (if paused v \<or> ended v \<or> \<not> offsetParent v then best
      else if visibleArea v > snd best then (Some v, visibleArea v) else best)"

definition getActiveVideo :: "video list \<Rightarrow> video option" where
  "getActiveVideo vs = fst (fold pick_video vs (None, 0))"

definition analyzeActiveVideo :: "int \<Rightarrow> detector \<Rightarrow> detector" where
  "analyzeActiveVideo now d =
     (case getActiveVideo (videos d) of
        None \<Rightarrow> d
      | Some v \<Rightarrow> d\<lparr> frameAnalyzer := snd (analyzeFrame now (Some v) (frameAnalyzer d)) \<rparr>)"

definition frameTick :: "int \<Rightarrow> detector \<Rightarrow> detector" where
  "frameTick now d = (if enabled d then analyzeActiveVideo now d else d)"

text \<open>
  \<^verbatim>\<open>_updateDopamineScore\<close>, its local values one definition each. The logarithm
  of the time score is defined for \<open>now\<close> from \<open>startTime - 60000\<close> on only; the source
  yields NaN or \<open>-Infinity\<close> before, which the model leaves out.
\<close>

definition sceneCutScore :: "detector \<Rightarrow> real" where
  "sceneCutScore d =
     (let m = getMetrics (frameAnalyzer d);
          cutRateNorm = min (metricsCutRate m / HIGH_CUT_RATE) 1;
          motionNorm = min (metricsAvgMotion m / SCENE_CUT_MOTION_THRESHOLD) 1
      in (cutRateNorm * 0.7 + motionNorm * 0.3) * 100)"

definition fastScrolls :: "detector \<Rightarrow> nat" where
  "fastScrolls d = length (filter (\<lambda>e. velocity e > VELOCITY_THRESHOLD) (scrollEvents d))"

definition scrollScore :: "detector \<Rightarrow> real" where
  "scrollScore d = min (real (fastScrolls d) / RAPID_SCROLL_COUNT) 1 * 100"

definition timeScore :: "int \<Rightarrow> detector \<Rightarrow> real" where
  "timeScore now d =
     (let elapsed = real_of_int (now - startTime d) / 1000
      in min (log 10 (1 + elapsed / 60) * 50) 100)"

definition contentChangeScore :: "detector \<Rightarrow> real" where
  "contentChangeScore d =
     min (real (length (domHeightChanges d)) / INFINITE_SCROLL_THRESHOLD) 1 * 100"

definition activeVideos :: "detector \<Rightarrow> nat" where
  "activeVideos d = length (filter (\<lambda>v. \<not> paused v \<and> \<not> ended v) (videos d))"

definition videoScore :: "detector \<Rightarrow> real" where
  "videoScore d = min (real (activeVideos d) / 3) 1 * 100"

definition rawScore :: "int \<Rightarrow> detector \<Rightarrow> real" where
  "rawScore now d =
     (sceneCutScore d * W_SCENE_CUTS + scrollScore d * W_SCROLL_VELOCITY
      + timeScore now d * W_TIME_ON_PAGE + contentChangeScore d * W_CONTENT_CHANGES
      + videoScore d * W_VIDEO_COUNT)
     * (0.5 + sensitivity d * 1.5)"

definition alpha :: real where "alpha = 0.15"

definition updateDopamineScore :: "int \<Rightarrow> detector \<Rightarrow> detector" where
  "updateDopamineScore now d =
     d\<lparr> dopamineScore := alpha * min (rawScore now d) 100 + (1 - alpha) * dopamineScore d \<rparr>"

text \<open>The periodic score update: it runs when the detector is enabled.\<close>

definition scoreTick :: "int \<Rightarrow> detector \<Rightarrow> detector" where
  "scoreTick now d = (if enabled d then updateDopamineScore now d else d)"

section \<open>Runs, invariants and sample states\<close>

subsection \<open>Effect engine\<close>

text \<open>
  While a frame is pending the loop runs; once it has stopped, every channel sits on its
  target. This holds from any state in which a frame is pending and is kept by \<open>frame\<close>.
\<close>

definition settled_or_running :: "engine \<Rightarrow> bool" where
  "settled_or_running s \<longleftrightarrow> animationFrame s \<or> (\<forall>k. currentEffects s k = targetEffects s k)"

text \<open>
  The engine right after \<^verbatim>\<open>update(25.084)\<close> on a fresh instance: the grayscale
  channel is at 0 and its target is 0.00105.
\<close>

definition slow_start :: engine where
  "slow_start = update 25.084 constructor"

text \<open>
  The engine right after \<^verbatim>\<open>update(1179 / 47)\<close> on a fresh instance: the grayscale
  channel is at 0 and its target is 1/940, so that one exact tick leaves a distance of
  exactly 0.001.
\<close>

definition edge_start :: engine where
  "edge_start = update (1179 / 47) constructor"

text \<open>
  The engine after \<^verbatim>\<open>update(0)\<close> on a fresh instance and one animation frame: every
  channel is on its target and the loop has stopped.
\<close>

definition settled :: engine where
  "settled = frame (update 0 constructor)"

text \<open>A run of the loop: one animation frame per element of the list of roundings.\<close>

definition frames_rounded :: "(channel \<Rightarrow> rounding) list \<Rightarrow> engine \<Rightarrow> engine" where
  "frames_rounded errs s = fold frame_rounded errs s"

text \<open>
  Arithmetic without rounding error; roundings of which every error is at most \<open>eta\<close> in
  absolute value (for doubles of magnitude up to 2, as the effect values are, an operation
  errs by less than \<open>10\<^sup>-\<^sup>1\<^sup>5\<close>); a tick whose stored value ends \<open>10\<^sup>-\<^sup>9\<close> low.
\<close>

definition exact :: "channel \<Rightarrow> rounding" where
  "exact = (\<lambda>k. \<lparr> diffErr = 0, thresholdErr = 0, stepErr = 0 \<rparr>)"

definition small :: "real \<Rightarrow> (channel \<Rightarrow> rounding) \<Rightarrow> bool" where
  "small eta err \<longleftrightarrow>
     (\<forall>k. \<bar>diffErr (err k)\<bar> \<le> eta \<and> \<bar>thresholdErr (err k)\<bar> \<le> eta \<and> \<bar>stepErr (err k)\<bar> \<le> eta)"

definition late :: "channel \<Rightarrow> rounding" where
  "late = (\<lambda>k. \<lparr> diffErr = 0, thresholdErr = 0, stepErr = - (1 / 10 ^ 9) \<rparr>)"


subsection \<open>Histogram distance\<close>

text \<open>
  The term that bin \<open>i\<close> adds in \<^verbatim>\<open>_histogramDiff\<close> when both arrays have the bin.
\<close>

definition bin_term :: "real list \<Rightarrow> real list \<Rightarrow> nat \<Rightarrow> real" where
  "bin_term h1 h2 i =
     (if h1 ! i + h2 ! i > 0 then (h1 ! i - h2 ! i)\<^sup>2 / (h1 ! i + h2 ! i) else 0)"

text \<open>
  The value that one cell contributes to the graph's mean, and the graph's arithmetic
  without rounding error.
\<close>

definition graph_cell :: "rounding32 \<Rightarrow> real \<Rightarrow> real \<Rightarrow> real" where
  "graph_cell e a b =
     rounded (meanErr e) (rounded (divErr e)
       (rounded (mulErr e) (rounded (subErr e) (a - b) * rounded (subErr e) (a - b))
        / rounded (denErr e) (rounded (addErr e) (a + b) + rounded (epsErr e) (1 / 10 ^ 10))))"

definition exact32 :: rounding32 where
  "exact32 = \<lparr> subErr = 0, mulErr = 0, addErr = 0, epsErr = 0, denErr = 0, divErr = 0,
     meanErr = 0 \<rparr>"

text \<open>
  Single precision: the relative error of an elementwise operation and of the stored
  constant is at most \<open>10\<^sup>-\<^sup>6\<close> (rounding to the nearest float32 errs by at most
  \<open>2\<^sup>-\<^sup>2\<^sup>4\<close>, about \<open>6 \<sqdot> 10\<^sup>-\<^sup>8\<close>), and what a term picks up in the mean over 48
  cells, at most 47 additions and the division, is at most \<open>5 \<sqdot> 10\<^sup>-\<^sup>5\<close>. \<open>up32\<close> is a
  rounding of that kind: one unit roundoff per operation, up or down.
\<close>

definition single_precision :: "rounding32 \<Rightarrow> bool" where
  "single_precision e \<longleftrightarrow>
     \<bar>subErr e\<bar> \<le> 1 / 10 ^ 6 \<and> \<bar>mulErr e\<bar> \<le> 1 / 10 ^ 6 \<and> \<bar>addErr e\<bar> \<le> 1 / 10 ^ 6
     \<and> \<bar>epsErr e\<bar> \<le> 1 / 10 ^ 6 \<and> \<bar>denErr e\<bar> \<le> 1 / 10 ^ 6 \<and> \<bar>divErr e\<bar> \<le> 1 / 10 ^ 6
     \<and> \<bar>meanErr e\<bar> \<le> 5 / 10 ^ 5"

definition up32 :: rounding32 where
  "up32 = \<lparr> subErr = 1 / 2 ^ 24, mulErr = - (1 / 2 ^ 24), addErr = 1 / 2 ^ 24,
     epsErr = 1 / 2 ^ 24, denErr = - (1 / 2 ^ 24), divErr = 1 / 2 ^ 24,
     meanErr = 49 / 2 ^ 24 \<rparr>"

text \<open>
  The histograms of two frames of \<open>2\<^sup>2\<^sup>1\<close> pixels (2048 by 1024), 16 bins per colour
  channel, every channel summing to 1: in the first frame the red value of one pixel falls
  into bin 0 and that of all others into bin 1, in the second frame all red values fall
  into bin 1; green and blue are in bin 0 throughout. All entries are float32 values.
\<close>

definition fine_a :: "real list" where
  "fine_a = [1 / 2 ^ 21, 1 - 1 / 2 ^ 21] @ replicate 14 0
            @ [1] @ replicate 15 0 @ [1] @ replicate 15 0"

definition fine_b :: "real list" where
  "fine_b = [0, 1] @ replicate 14 0 @ [1] @ replicate 15 0 @ [1] @ replicate 15 0"

text \<open>
  Two 48-bin histograms whose red channels are spread over two bins and concentrated in
  one bin.
\<close>

definition half_a :: "real list" where
  "half_a = [1 / 2, 1 / 2] @ replicate 14 0 @ [1] @ replicate 15 0 @ [1] @ replicate 15 0"

definition half_b :: "real list" where
  "half_b = [1, 0] @ replicate 14 0 @ [1] @ replicate 15 0 @ [1] @ replicate 15 0"

text \<open>Every cell of the list is a count: a natural number.\<close>

definition counts :: "real list \<Rightarrow> bool" where
  "counts h \<longleftrightarrow> (\<forall>x \<in> set h. \<exists>k::nat. x = real k)"

subsection \<open>Frame analyzer\<close>

text \<open>
  A run of the analyzer: the sampling ticks in order, each with its clock reading and the
  video element it is given.
\<close>

fun analyze_run :: "analyzer \<Rightarrow> (int \<times> video option) list \<Rightarrow> analyzer" where
  "analyze_run fa [] = fa"
| "analyze_run fa ((now, v) # rest) = analyze_run (snd (analyzeFrame now v fa)) rest"

text \<open>
  A capture, when it succeeds, delivers whole pixels (four bytes each) and at least one,
  as the image data of a canvas does.
\<close>

definition whole_frame :: "video option \<Rightarrow> bool" where
  "whole_frame v \<longleftrightarrow>
     (case v of None \<Rightarrow> True
      | Some w \<Rightarrow> (case pixels w of Inl e \<Rightarrow> True
                   | Inr data \<Rightarrow> length data mod 4 = 0 \<and> 0 < length data))"

text \<open>
  The analyzer has the constants of its constructor and holds no cut, and its previous
  histogram, if any, has 48 non-negative cells that sum to at most 3.
\<close>

definition cut_free :: "analyzer \<Rightarrow> bool" where
  "cut_free fa \<longleftrightarrow>
     BINS fa = HISTOGRAM_BINS \<and> DIFF_THRESHOLD fa = SCENE_CUT_DIFF_THRESHOLD
     \<and> sceneCuts fa = []
     \<and> (case previousHistogram fa of None \<Rightarrow> True
         | Some h \<Rightarrow> length h = 48 \<and> (\<forall>x \<in> set h. 0 \<le> x) \<and> sum_list h \<le> 3)"

subsection \<open>Detector\<close>

text \<open>
  A sequence of score updates. Between two updates the other handlers change the
  detector's signal fields but never \<open>dopamineScore\<close>, which only
  \<^verbatim>\<open>_updateDopamineScore\<close> writes: each element of the list gives the clock reading
  of an update and the detector's fields at that moment, and the score is carried from
  one update to the next. The result lists the score after each update.
\<close>

fun score_run :: "real \<Rightarrow> (int \<times> detector) list \<Rightarrow> real list" where
  "score_run score [] = []"
| "score_run score ((now, d) # rest) =
     (let score' = dopamineScore (updateDopamineScore now (d\<lparr> dopamineScore := score \<rparr>))
      in score' # score_run score' rest)"

text \<open>
  The input signals of one update are in range: cut rate and average motion are not
  negative, the clock has not gone back behind \<open>startTime\<close> and the sensitivity lies
  between 0 and 1. (The three event counts are lengths of lists.)
\<close>

definition signals_ok :: "int \<Rightarrow> detector \<Rightarrow> bool" where
  "signals_ok now d \<longleftrightarrow>
     0 \<le> metricsCutRate (getMetrics (frameAnalyzer d))
     \<and> 0 \<le> metricsAvgMotion (getMetrics (frameAnalyzer d))
     \<and> startTime d \<le> now
     \<and> 0 \<le> sensitivity d \<and> sensitivity d \<le> 1"

text \<open>
  A playing video, and a detector at its start time whose sub-scores other than the
  time score are all at 100: three cuts in the window, average motion 0.25, five fast
  scrolls, twenty height changes, three playing videos, sensitivity 0.5.
\<close>

definition playing :: video where
  "playing = \<lparr> paused = False, ended = False, readyState = 4, videoWidth = 1280,
     offsetParent = True, visibleArea = 1000, pixels = Inr [0, 0, 0, 255] \<rparr>"

definition saturated :: detector where
  "saturated = (newDetector 0 0 0)
     \<lparr> frameAnalyzer := newFrameAnalyzer\<lparr> sceneCuts := [0, 0, 0], motionScores := [0.25] \<rparr>,
       videos := [playing, playing, playing],
       scrollEvents := replicate 5 \<lparr> time = 0, velocity = 1000, dy = 1 \<rparr>,
       domHeightChanges := replicate 20 0 \<rparr>"

text \<open>
  A detector created at time 0 that has seen one scroll event at time 1000, from
  \<open>scrollY = 0\<close> to \<open>scrollY = 5000\<close>.
\<close>

definition stale_scroll :: detector where
  "stale_scroll = scrollHandler 1000 5000 (newDetector 0 0 2000)"

text \<open>
  A paused video, and a playing one whose frames cannot be read (cross-origin).
\<close>

definition paused_video :: video where
  "paused_video = \<lparr> paused = True, ended = False, readyState = 4, videoWidth = 1280,
     offsetParent = True, visibleArea = 1000, pixels = Inr [0, 0, 0, 255] \<rparr>"

definition cross_origin_video :: video where
  "cross_origin_video = \<lparr> paused = False, ended = False, readyState = 4, videoWidth = 1280,
     offsetParent = True, visibleArea = 1000, pixels = Inl SecurityError \<rparr>"

text \<open>A playing video that shows a white frame (\<open>playing\<close> shows a black one).\<close>

definition white_video :: video where
  "white_video = playing\<lparr> pixels := Inr [255, 255, 255, 255] \<rparr>"

section \<open>Properties of the effect engine\<close>

lemma intensity_anchor_values:
  "intensity 25 = 0" "intensity 45 = 0.25" "intensity 65 = 0.60"
  "intensity 85 = 0.85" "intensity 100 = 1"
  by (simp_all add: intensity_def THRESHOLDS_defs)

lemma fold_step_key:
  "distinct ks \<Longrightarrow>
   fold (step_key t) ks (c, b) =
     ((\<lambda>k. if k \<in> set ks then (if \<bar>t k - c k\<bar> > 0.001 then c k + (t k - c k) * lerp else t k) else c k),
      b \<or> (\<exists>k \<in> set ks. \<bar>t k - c k\<bar> > 0.001))"
proof (induction ks arbitrary: c b)
  case Nil
  then show ?case by simp
next
  case (Cons x xs)
  have d: "distinct xs" and nx: "x \<notin> set xs" using Cons.prems by auto
  show ?case
  proof (cases "\<bar>t x - c x\<bar> > 0.001")
    case True
    then have "step_key t x (c, b) = (c(x := c x + (t x - c x) * lerp), True)"
      by (simp add: step_key_def)
    then show ?thesis using Cons.IH [OF d] nx True by (auto simp: fun_eq_iff)
  next
    case False
    then have "step_key t x (c, b) = (c(x := t x), b)"
      by (simp add: step_key_def)
    then show ?thesis using Cons.IH [OF d] nx False by (auto simp: fun_eq_iff)
  qed
qed

lemma keys_all: "set keys = UNIV" "distinct keys"
proof -
  show "set keys = UNIV"
  proof
    show "UNIV \<subseteq> set keys"
    proof
      fix k :: channel show "k \<in> set keys" by (cases k) (simp_all add: keys_def)
    qed
  qed simp
  show "distinct keys" by (simp add: keys_def)
qed

lemma step_current:
  "currentEffects (step s) k =
     (if \<bar>targetEffects s k - currentEffects s k\<bar> > 0.001
      then currentEffects s k + (targetEffects s k - currentEffects s k) * lerp
      else targetEffects s k)"
  by (simp add: step_def fold_step_key keys_all Let_def)

lemma step_pending:
  "animationFrame (step s) = (\<exists>k. \<bar>targetEffects s k - currentEffects s k\<bar> > 0.001)"
  by (simp add: step_def fold_step_key keys_all Let_def)

lemma step_isAnimating:
  "isAnimating (step s) = (isAnimating s \<and> (\<exists>k. \<bar>targetEffects s k - currentEffects s k\<bar> > 0.001))"
  by (simp add: step_def fold_step_key keys_all Let_def)

lemma step_target: "targetEffects (step s) = targetEffects s"
  by (simp add: step_def Let_def)

subsection \<open>The intensity curve\<close>

lemma scoreTarget_audioIntensity:
  "scoreTarget s audioIntensity = (if s < 25 then 0 else intensity s)"
  by (simp add: scoreTarget_def effects_of_def THRESHOLDS_defs Let_def)

lemma emitted_intensity_lipschitz:
  "\<bar>scoreTarget x audioIntensity - scoreTarget y audioIntensity\<bar> \<le> \<bar>x - y\<bar>"
  unfolding scoreTarget_audioIntensity intensity_def THRESHOLDS_defs
  by (auto simp: min_def abs_if diff_divide_distrib split: if_splits)

lemma lipschitz_isCont:
  fixes f :: "real \<Rightarrow> real"
  assumes "\<And>x y. \<bar>f x - f y\<bar> \<le> \<bar>x - y\<bar>"
  shows "isCont f a"
  unfolding isCont_def LIM_eq
proof (intro allI impI)
  fix r :: real assume r: "0 < r"
  have "\<forall>x. x \<noteq> a \<and> norm (x - a) < r \<longrightarrow> norm (f x - f a) < r"
    using assms [of _ a] by (auto intro: le_less_trans)
  with r show "\<exists>s>0. \<forall>x. x \<noteq> a \<and> norm (x - a) < s \<longrightarrow> norm (f x - f a) < r"
    by blast
qed

text \<open>
  Claim C5 (intensity curve anchors and continuity). The intensity computed by
  \<^verbatim>\<open>update\<close> takes the values 0, 0.25, 0.60, 0.85 and 1 at the scores 25, 45, 65,
  85 and 100, follows the four linear segments between the thresholds (the last one
  clamped to 1), and the intensity that \<^verbatim>\<open>update\<close> emits (the
  \<^verbatim>\<open>audioIntensity\<close> target, 0 below the LOW threshold) is continuous at every
  score, in particular at each segment boundary.
\<close>

theorem intensity_curve:
  "intensity 25 = 0 \<and> intensity 45 = 0.25 \<and> intensity 65 = 0.60 \<and> intensity 85 = 0.85
   \<and> intensity 100 = 1
   \<and> (\<forall>s. 25 \<le> s \<and> s < 45 \<longrightarrow> intensity s = (s - 25) / 20 * 0.25)
   \<and> (\<forall>s. 45 \<le> s \<and> s < 65 \<longrightarrow> intensity s = 0.25 + (s - 45) / 20 * 0.35)
   \<and> (\<forall>s. 65 \<le> s \<and> s < 85 \<longrightarrow> intensity s = 0.60 + (s - 65) / 20 * 0.25)
   \<and> (\<forall>s. 85 \<le> s \<longrightarrow> intensity s = min (0.85 + (s - 85) / 15 * 0.15) 1)
   \<and> (\<forall>s. scoreTarget s audioIntensity = (if s < 25 then 0 else intensity s))
   \<and> (\<forall>x. isCont (\<lambda>s. scoreTarget s audioIntensity) x)"
proof -
  have seg1: "\<forall>s. 25 \<le> s \<and> s < 45 \<longrightarrow> intensity s = (s - 25) / 20 * 0.25"
    by (auto simp add: intensity_def THRESHOLDS_defs min_def diff_divide_distrib)
  have seg2: "\<forall>s. 45 \<le> s \<and> s < 65 \<longrightarrow> intensity s = 0.25 + (s - 45) / 20 * 0.35"
    by (auto simp add: intensity_def THRESHOLDS_defs min_def diff_divide_distrib)
  have seg3: "\<forall>s. 65 \<le> s \<and> s < 85 \<longrightarrow> intensity s = 0.60 + (s - 65) / 20 * 0.25"
    by (auto simp add: intensity_def THRESHOLDS_defs min_def diff_divide_distrib)
  have seg4: "\<forall>s. 85 \<le> s \<longrightarrow> intensity s = min (0.85 + (s - 85) / 15 * 0.15) 1"
    by (simp add: intensity_def THRESHOLDS_defs)
  have cont: "\<forall>x. isCont (\<lambda>s. scoreTarget s audioIntensity) x"
    by (intro allI lipschitz_isCont emitted_intensity_lipschitz)
  show ?thesis
    using seg1 seg2 seg3 seg4 cont scoreTarget_audioIntensity
    by (simp add: intensity_anchor_values)
qed

text \<open>The segments evaluated inside each range: at the scores 30, 50, 70, 90 and 120.\<close>

theorem intensity_curve_witness:
  "intensity 30 = 1/16 \<and> intensity 50 = 27/80 \<and> intensity 70 = 53/80 \<and> intensity 90 = 9/10
   \<and> intensity 120 = 1"
proof -
  have a: "25 \<le> (30::real) \<and> (30::real) < 45 \<longrightarrow> intensity 30 = (30 - 25) / 20 * 0.25"
    using intensity_curve by blast
  have b: "45 \<le> (50::real) \<and> (50::real) < 65 \<longrightarrow> intensity 50 = 0.25 + (50 - 45) / 20 * 0.35"
    using intensity_curve by blast
  have c: "65 \<le> (70::real) \<and> (70::real) < 85 \<longrightarrow> intensity 70 = 0.60 + (70 - 65) / 20 * 0.25"
    using intensity_curve by blast
  have d: "85 \<le> (90::real) \<longrightarrow> intensity 90 = min (0.85 + (90 - 85) / 15 * 0.15) 1"
    using intensity_curve by blast
  have e: "85 \<le> (120::real) \<longrightarrow> intensity 120 = min (0.85 + (120 - 85) / 15 * 0.15) 1"
    using intensity_curve by blast
  show ?thesis using a b c d e by simp
qed

subsection \<open>One animation step\<close>

lemma step_between:
  "min (currentEffects s k) (targetEffects s k) \<le> currentEffects (step s) k
   \<and> currentEffects (step s) k \<le> max (currentEffects s k) (targetEffects s k)"
  by (simp add: step_current lerp_def min_def max_def) argo

lemma step_hits_target_iff:
  "currentEffects (step s) k = targetEffects s k
     \<longleftrightarrow> \<bar>targetEffects s k - currentEffects s k\<bar> \<le> 0.001"
  by (simp add: step_current lerp_def) argo

lemma steps_target: "targetEffects ((step ^^ n) s) = targetEffects s"
  by (induction n) (simp_all add: step_target)

lemma steps_interval:
  assumes "lo \<le> currentEffects s k" "currentEffects s k \<le> hi"
    and "lo \<le> targetEffects s k" "targetEffects s k \<le> hi"
  shows "lo \<le> currentEffects ((step ^^ n) s) k \<and> currentEffects ((step ^^ n) s) k \<le> hi"
proof (induction n)
  case 0
  show ?case using assms by simp
next
  case (Suc n)
  let ?s = "(step ^^ n) s"
  have t: "targetEffects ?s k = targetEffects s k" by (simp add: steps_target)
  from step_between [of ?s k] Suc t assms(3,4) show ?case
    by (simp add: min_def max_def split: if_splits)
qed

text \<open>
  Claim C10 (no overshoot). For every channel, one animation step leaves the current
  value between its old value and the target, it equals the target afterwards exactly
  when the snap branch ran, and a closed interval that holds the current value and the
  target still holds the current value after any number of ticks.
\<close>

theorem no_overshoot:
  "min (currentEffects s k) (targetEffects s k) \<le> currentEffects (step s) k
   \<and> currentEffects (step s) k \<le> max (currentEffects s k) (targetEffects s k)
   \<and> (currentEffects (step s) k = targetEffects s k
        \<longleftrightarrow> \<bar>targetEffects s k - currentEffects s k\<bar> \<le> 0.001)
   \<and> (lo \<le> currentEffects s k \<and> currentEffects s k \<le> hi
        \<and> lo \<le> targetEffects s k \<and> targetEffects s k \<le> hi
        \<longrightarrow> lo \<le> currentEffects ((step ^^ n) s) k \<and> currentEffects ((step ^^ n) s) k \<le> hi)"
  using step_between [of s k] step_hits_target_iff [of s k] steps_interval [of lo s k hi n]
  by blast

lemma update_fields:
  "targetEffects (update sc s) = scoreTarget sc"
  "currentEffects (update sc s) = currentEffects s"
  "isAnimating (update sc s)"
  "animationFrame (update sc s) = (animationFrame s \<or> \<not> isAnimating s)"
  "breatheMode (update sc s) = breatheMode s"
  "timeouts (update sc s) = timeouts s"
  by (simp_all add: update_def startAnimation_def Let_def)

text \<open>
  A run from the initial state after \<^verbatim>\<open>update(100)\<close>: the grayscale channel
  starts at 0 with target 1 and stays in the interval from 0 to 1.
\<close>

theorem no_overshoot_witness:
  "currentEffects (update 100 constructor) grayscale = 0
   \<and> targetEffects (update 100 constructor) grayscale = 1
   \<and> currentEffects (step (update 100 constructor)) grayscale = 0.06
   \<and> 0 \<le> currentEffects ((step ^^ 3) (update 100 constructor)) grayscale
   \<and> currentEffects ((step ^^ 3) (update 100 constructor)) grayscale \<le> 1"
proof -
  have c: "currentEffects (update 100 constructor) grayscale = 0"
    by (simp add: update_fields constructor_def neutral_def effects_of_def)
  have t: "targetEffects (update 100 constructor) grayscale = 1"
    by (simp add: update_fields scoreTarget_def intensity_def THRESHOLDS_defs EFFECTS_defs
        effects_of_def)
  have s: "currentEffects (step (update 100 constructor)) grayscale = 0.06"
    by (simp add: step_current c t lerp_def)
  from no_overshoot [of "update 100 constructor" grayscale 0 1 3] c t s
  show ?thesis by simp
qed

lemma breathe_fields:
  "targetEffects (breathe now s) = calming"
  "breatheMode (breathe now s)"
  "timeouts (breathe now s) = timeouts s @ [(now + 5000, targetEffects s)]"
  "currentEffects (breathe now s) = currentEffects s"
  by (simp_all add: breathe_def Let_def)

lemma calming_values:
  "calming grayscale = 0.6" "calming saturation = 0.4" "calming brightness = 0.85"
  "calming blur = 0.8" "calming playbackRate = 0.9" "calming audioIntensity = 0.5"
  by (simp_all add: calming_def effects_of_def)

subsection \<open>Convergence of the animation loop\<close>

lemma frame_target: "targetEffects (frame s) = targetEffects s"
  by (simp add: frame_def step_target)

lemma ticks_bound_power:
  fixes d :: real
  assumes "0.001 < d"
  shows "0.94 ^ nat \<lceil>log (1 / 0.94) (d / 0.001)\<rceil> * d \<le> 0.001"
proof -
  let ?b = "1 / 0.94 :: real"
  let ?N = "nat \<lceil>log ?b (d / 0.001)\<rceil>"
  have b: "1 < ?b" by simp
  have x: "0 < d / 0.001" using assms by simp
  have "log ?b (d / 0.001) \<le> real ?N" by linarith
  then have "d / 0.001 \<le> ?b powr real ?N"
    using log_le_iff [OF b x] by simp
  also have "\<dots> = ?b ^ ?N" by (simp add: powr_realpow)
  finally have "d / 0.001 \<le> ?b ^ ?N" .
  then have "d \<le> 0.001 * (1 / 0.94 ^ ?N)" by (simp add: power_divide field_simps)
  moreover have "0 < (0.94::real) ^ ?N" by simp
  ultimately have "d * 0.94 ^ ?N \<le> 0.001"
    by (simp add: field_simps)
  then show ?thesis by (simp add: mult.commute)
qed

text \<open>
  The loop under rounding. The lemmas follow the ones about \<open>step\<close>: what a tick does
  to one channel, whether it requests another frame, and that it leaves the target alone.
\<close>

lemma fold_step_key_rounded:
  "distinct ks \<Longrightarrow>
   fold (step_key_rounded err t) ks (c, b) =
     ((\<lambda>k. if k \<in> set ks
           then (if \<bar>t k - c k + diffErr (err k)\<bar> > 0.001 + thresholdErr (err k)
                 then c k + (t k - c k + diffErr (err k)) * lerp + stepErr (err k) else t k)
           else c k),
      b \<or> (\<exists>k \<in> set ks. \<bar>t k - c k + diffErr (err k)\<bar> > 0.001 + thresholdErr (err k)))"
proof (induction ks arbitrary: c b)
  case Nil
  then show ?case by simp
next
  case (Cons x xs)
  have d: "distinct xs" and nx: "x \<notin> set xs" using Cons.prems by auto
  show ?case
  proof (cases "\<bar>t x - c x + diffErr (err x)\<bar> > 0.001 + thresholdErr (err x)")
    case True
    then have "step_key_rounded err t x (c, b)
        = (c(x := c x + (t x - c x + diffErr (err x)) * lerp + stepErr (err x)), True)"
      by (simp add: step_key_rounded_def)
    then show ?thesis using Cons.IH [OF d] nx True by (auto simp: fun_eq_iff)
  next
    case False
    then have "step_key_rounded err t x (c, b) = (c(x := t x), b)"
      by (simp add: step_key_rounded_def)
    then show ?thesis using Cons.IH [OF d] nx False by (auto simp: fun_eq_iff)
  qed
qed

lemma step_rounded_current:
  "currentEffects (step_rounded err s) k =
     (if \<bar>targetEffects s k - currentEffects s k + diffErr (err k)\<bar> > 0.001 + thresholdErr (err k)
      then currentEffects s k + (targetEffects s k - currentEffects s k + diffErr (err k)) * lerp
           + stepErr (err k)
      else targetEffects s k)"
  by (simp add: step_rounded_def fold_step_key_rounded keys_all Let_def)

lemma step_rounded_pending:
  "animationFrame (step_rounded err s)
     = (\<exists>k. \<bar>targetEffects s k - currentEffects s k + diffErr (err k)\<bar>
               > 0.001 + thresholdErr (err k))"
  by (simp add: step_rounded_def fold_step_key_rounded keys_all Let_def)

lemma step_rounded_isAnimating:
  "isAnimating (step_rounded err s)
     = (isAnimating s \<and> (\<exists>k. \<bar>targetEffects s k - currentEffects s k + diffErr (err k)\<bar>
               > 0.001 + thresholdErr (err k)))"
  by (simp add: step_rounded_def fold_step_key_rounded keys_all Let_def)

lemma step_rounded_target: "targetEffects (step_rounded err s) = targetEffects s"
  by (simp add: step_rounded_def Let_def)

text \<open>Without rounding error the rounded tick is the tick of \<open>step\<close>.\<close>

lemma step_rounded_exact: "step_rounded exact s = step s"
proof -
  have "step_key_rounded exact t = step_key t" for t
    by (simp add: fun_eq_iff step_key_rounded_def step_key_def exact_def Let_def)
  then show ?thesis by (simp add: step_rounded_def step_def)
qed

lemma frame_rounded_exact: "frame_rounded exact s = frame s"
  by (simp add: frame_rounded_def frame_def step_rounded_exact)

lemma frames_rounded_exact: "frames_rounded (replicate n exact) s = (frame ^^ n) s"
proof (induction n arbitrary: s)
  case 0
  show ?case by (simp add: frames_rounded_def)
next
  case (Suc n)
  have "frames_rounded (replicate (Suc n) exact) s
      = frames_rounded (replicate n exact) (frame_rounded exact s)"
    by (simp add: frames_rounded_def)
  also have "\<dots> = (frame ^^ n) (frame s)" using Suc by (simp add: frame_rounded_exact)
  finally show ?case by (simp add: funpow_swap1)
qed

lemma small_exact: "small 0 exact"
  by (simp add: small_def exact_def)

lemma frames_rounded_snoc:
  "frames_rounded (errs @ [err]) s = frame_rounded err (frames_rounded errs s)"
  by (simp add: frames_rounded_def)

lemma frame_rounded_target: "targetEffects (frame_rounded err s) = targetEffects s"
  by (simp add: frame_rounded_def step_rounded_target)

lemma frames_rounded_target: "targetEffects (frames_rounded errs s) = targetEffects s"
  by (induction errs rule: rev_induct)
     (simp_all add: frames_rounded_snoc frame_rounded_target, simp add: frames_rounded_def)

lemma frame_rounded_invariant:
  "settled_or_running s \<Longrightarrow> settled_or_running (frame_rounded err s)"
  unfolding settled_or_running_def frame_rounded_def
  by (auto simp: step_rounded_pending step_rounded_current step_rounded_target not_less)

lemma frames_rounded_invariant:
  "settled_or_running s \<Longrightarrow> settled_or_running (frames_rounded errs s)"
  by (induction errs rule: rev_induct)
     (simp_all add: frames_rounded_snoc frame_rounded_invariant, simp add: frames_rounded_def)

lemma frame_rounded_flag:
  "animationFrame s \<or> \<not> isAnimating s \<Longrightarrow>
   animationFrame (frame_rounded err s) \<or> \<not> isAnimating (frame_rounded err s)"
  unfolding frame_rounded_def
  by (auto simp: step_rounded_pending step_rounded_isAnimating)

lemma frames_rounded_flag:
  "animationFrame s \<or> \<not> isAnimating s \<Longrightarrow>
   animationFrame (frames_rounded errs s) \<or> \<not> isAnimating (frames_rounded errs s)"
  by (induction errs rule: rev_induct)
     (simp_all add: frames_rounded_snoc frame_rounded_flag, simp add: frames_rounded_def)

lemma frames_rounded_idle: "\<not> animationFrame s \<Longrightarrow> frames_rounded errs s = s"
  by (induction errs rule: rev_induct)
     (simp_all add: frames_rounded_snoc frame_rounded_def, simp add: frames_rounded_def)

text \<open>
  The arithmetic of one interpolation with the errors \<open>e1\<close> (of the difference) and
  \<open>e2\<close> (of the stored value): the new distance is \<open>0.94 d - 0.06 e1 - e2\<close>.
\<close>

lemma abs_affine_upper:
  fixes d e1 e2 eta :: real
  assumes "\<bar>e1\<bar> \<le> eta" "\<bar>e2\<bar> \<le> eta"
  shows "\<bar>0.94 * d - 0.06 * e1 - e2\<bar> \<le> 0.94 * \<bar>d\<bar> + 1.06 * eta"
  using assms by (simp add: abs_if field_simps split: if_splits)

lemma abs_affine_lower:
  fixes d e1 e2 eta :: real
  assumes "\<bar>e1\<bar> \<le> eta" "\<bar>e2\<bar> \<le> eta"
  shows "0.94 * \<bar>d\<bar> - 1.06 * eta \<le> \<bar>0.94 * d - 0.06 * e1 - e2\<bar>"
  using assms by (simp add: abs_if field_simps split: if_splits)

lemma lerp_residual:
  fixes t c e1 e2 :: real
  shows "t - (c + (t - c + e1) * 0.06 + e2) = 0.94 * (t - c) - 0.06 * e1 - e2"
  by (simp add: field_simps)

lemma contraction_chain:
  fixes x y p eta :: real
  assumes "x \<le> 0.94 * y + 1.06 * eta" "y \<le> p + 18 * eta" "0 \<le> eta"
  shows "x \<le> 0.94 * p + 18 * eta"
  using assms by (simp add: field_simps)

lemma measured_far:
  fixes d e1 e3 eta :: real
  assumes "0.001 + 2 * eta < \<bar>d\<bar>" "\<bar>e1\<bar> \<le> eta" "\<bar>e3\<bar> \<le> eta"
  shows "\<bar>d + e1\<bar> > 0.001 + e3"
  using assms by linarith

lemma measured_near:
  fixes d e1 e3 eta :: real
  assumes "\<bar>d\<bar> + 2 * eta \<le> 0.001" "\<bar>e1\<bar> \<le> eta" "\<bar>e3\<bar> \<le> eta"
  shows "\<not> \<bar>d + e1\<bar> > 0.001 + e3"
  using assms by linarith

lemma contraction_strict:
  fixes x d eta :: real
  assumes "x \<le> 0.94 * d + 1.06 * eta" "0.001 < d" "eta \<le> 1 / 10 ^ 6"
  shows "x < d"
  using assms by simp

lemma frame_rounded_contracts:
  assumes "settled_or_running s" "small eta err" "0 \<le> eta"
  shows "\<bar>targetEffects s k - currentEffects (frame_rounded err s) k\<bar>
           \<le> 0.94 * \<bar>targetEffects s k - currentEffects s k\<bar> + 1.06 * eta"
proof (cases "animationFrame s")
  case True
  have e: "\<bar>diffErr (err k)\<bar> \<le> eta" "\<bar>stepErr (err k)\<bar> \<le> eta"
    using assms(2) by (simp_all add: small_def)
  show ?thesis
  proof (cases "\<bar>targetEffects s k - currentEffects s k + diffErr (err k)\<bar>
                  > 0.001 + thresholdErr (err k)")
    case False
    with True assms(3) show ?thesis
      by (simp add: frame_rounded_def step_rounded_current)
  next
    case lerp: True
    define d where "d = targetEffects s k - currentEffects s k"
    have "currentEffects (frame_rounded err s) k
        = currentEffects s k + (d + diffErr (err k)) * 0.06 + stepErr (err k)"
      using True lerp by (simp add: frame_rounded_def step_rounded_current lerp_def d_def)
    then have "targetEffects s k - currentEffects (frame_rounded err s) k
        = 0.94 * d - 0.06 * diffErr (err k) - stepErr (err k)"
      using lerp_residual [of "targetEffects s k" "currentEffects s k" "diffErr (err k)"
          "stepErr (err k)"]
      by (simp only: d_def)
    then show ?thesis using abs_affine_upper [OF e, of d] by (simp only: d_def)
  qed
next
  case False
  with assms(1) have "currentEffects s k = targetEffects s k"
    by (simp add: settled_or_running_def)
  with False assms(3) show ?thesis by (simp add: frame_rounded_def)
qed

lemma frames_rounded_contract:
  assumes "settled_or_running s" "\<forall>err \<in> set errs. small eta err" "0 \<le> eta"
  shows "\<bar>targetEffects s k - currentEffects (frames_rounded errs s) k\<bar>
           \<le> 0.94 ^ length errs * \<bar>targetEffects s k - currentEffects s k\<bar> + 18 * eta"
  using assms(2)
proof (induction errs rule: rev_induct)
  case Nil
  show ?case using assms(3) by (simp add: frames_rounded_def)
next
  case (snoc err errs)
  let ?s = "frames_rounded errs s"
  let ?d = "\<bar>targetEffects s k - currentEffects s k\<bar>"
  have ih: "\<bar>targetEffects s k - currentEffects ?s k\<bar> \<le> 0.94 ^ length errs * ?d + 18 * eta"
    using snoc by simp
  have "\<bar>targetEffects ?s k - currentEffects (frame_rounded err ?s) k\<bar>
          \<le> 0.94 * \<bar>targetEffects ?s k - currentEffects ?s k\<bar> + 1.06 * eta"
    using snoc.prems assms(3)
    by (intro frame_rounded_contracts frames_rounded_invariant [OF assms(1)]) simp_all
  then have "\<bar>targetEffects s k - currentEffects (frame_rounded err ?s) k\<bar>
          \<le> 0.94 * \<bar>targetEffects s k - currentEffects ?s k\<bar> + 1.06 * eta"
    by (simp only: frames_rounded_target)
  then have "\<bar>targetEffects s k - currentEffects (frame_rounded err ?s) k\<bar>
          \<le> 0.94 * (0.94 ^ length errs * ?d) + 18 * eta"
    using ih assms(3) by (rule contraction_chain)
  then show ?case by (simp add: frames_rounded_snoc)
qed

lemma frame_rounded_snaps:
  assumes "settled_or_running s" "small eta err"
    and "\<bar>targetEffects s k - currentEffects s k\<bar> + 2 * eta \<le> 0.001"
  shows "currentEffects (frame_rounded err s) k = targetEffects s k"
proof (cases "animationFrame s")
  case True
  have "\<bar>diffErr (err k)\<bar> \<le> eta" "\<bar>thresholdErr (err k)\<bar> \<le> eta"
    using assms(2) by (simp_all add: small_def)
  with assms(3) have "\<not> \<bar>targetEffects s k - currentEffects s k + diffErr (err k)\<bar>
                        > 0.001 + thresholdErr (err k)"
    by (rule measured_near)
  with True show ?thesis by (simp add: frame_rounded_def step_rounded_current)
next
  case False
  with assms(1) show ?thesis by (simp add: settled_or_running_def frame_rounded_def)
qed

text \<open>After \<open>m\<close> ticks, \<open>m\<close> at least 1 and at least the bound plus 1, a channel is in reach
  of the snap branch whatever the rounding.\<close>

lemma rounded_in_reach:
  assumes inv: "settled_or_running s" and eta: "0 \<le> eta" "eta \<le> 1 / 10 ^ 6"
    and errs: "\<forall>err \<in> set errs. small eta err"
    and one: "1 \<le> length errs"
    and len: "0.001 < \<bar>targetEffects s k - currentEffects s k\<bar> \<longrightarrow>
       nat \<lceil>log (1 / 0.94) (\<bar>targetEffects s k - currentEffects s k\<bar> / 0.001)\<rceil> + 1
         \<le> length errs"
  shows "\<bar>targetEffects s k - currentEffects (frames_rounded errs s) k\<bar> + 2 * eta \<le> 0.001"
proof -
  let ?d = "\<bar>targetEffects s k - currentEffects s k\<bar>"
  let ?N = "nat \<lceil>log (1 / 0.94) (?d / 0.001)\<rceil>"
  have p: "0.94 ^ length errs * ?d \<le> 0.00094"
  proof (cases "0.001 < ?d")
    case True
    with len have m: "?N + 1 \<le> length errs" by simp
    have "(0.94::real) ^ length errs \<le> 0.94 ^ (?N + 1)"
      using m by (intro power_decreasing) simp_all
    then have "0.94 ^ length errs * ?d \<le> 0.94 ^ (?N + 1) * ?d"
      by (intro mult_right_mono) simp_all
    also have "\<dots> = 0.94 * (0.94 ^ ?N * ?d)" by simp
    also have "\<dots> \<le> 0.94 * 0.001"
      by (rule mult_left_mono [OF ticks_bound_power [OF True]]) simp
    finally show ?thesis by simp
  next
    case False
    then have d: "?d \<le> 0.001" by simp
    have "(0.94::real) ^ length errs \<le> 0.94 ^ 1"
      using one by (intro power_decreasing) simp_all
    then have "0.94 ^ length errs * ?d \<le> 0.94 ^ 1 * ?d"
      by (intro mult_right_mono) simp_all
    also have "\<dots> \<le> 0.94 * 0.001" using d by simp
    finally show ?thesis by simp
  qed
  have "\<bar>targetEffects s k - currentEffects (frames_rounded errs s) k\<bar>
          \<le> 0.94 ^ length errs * ?d + 18 * eta"
    by (rule frames_rounded_contract [OF inv errs eta(1)])
  with p eta(2) show ?thesis by simp
qed

lemma rounded_snap_bound:
  assumes run: "animationFrame s" and eta: "0 \<le> eta" "eta \<le> 1 / 10 ^ 6"
    and errs: "\<forall>err \<in> set errs. small eta err"
    and far: "0.001 < \<bar>targetEffects s k - currentEffects s k\<bar>"
    and len: "nat \<lceil>log (1 / 0.94) (\<bar>targetEffects s k - currentEffects s k\<bar> / 0.001)\<rceil> + 2
                \<le> length errs"
  shows "currentEffects (frames_rounded errs s) k = targetEffects s k"
proof -
  have inv: "settled_or_running s" using run by (simp add: settled_or_running_def)
  from len obtain es e where split: "errs = es @ [e]"
    by (cases errs rule: rev_cases) auto
  have small: "\<forall>err \<in> set es. small eta err" "small eta e" using errs split by simp_all
  let ?s = "frames_rounded es s"
  have "\<bar>targetEffects s k - currentEffects ?s k\<bar> + 2 * eta \<le> 0.001"
    using len split by (intro rounded_in_reach [OF inv eta small(1)]) simp_all
  then have "\<bar>targetEffects ?s k - currentEffects ?s k\<bar> + 2 * eta \<le> 0.001"
    by (simp only: frames_rounded_target)
  then have "currentEffects (frame_rounded e ?s) k = targetEffects ?s k"
    by (rule frame_rounded_snaps [OF frames_rounded_invariant [OF inv] small(2)])
  then show ?thesis by (simp add: split frames_rounded_snoc frames_rounded_target)
qed

lemma rounded_tick_decreases:
  assumes run: "animationFrame s" and eta: "0 \<le> eta" "eta \<le> 1 / 10 ^ 6"
    and err: "small eta err"
    and far: "0.001 < \<bar>targetEffects s k - currentEffects s k\<bar>"
  shows "\<bar>targetEffects s k - currentEffects (frame_rounded err s) k\<bar>
           < \<bar>targetEffects s k - currentEffects s k\<bar>"
proof (cases "\<bar>targetEffects s k - currentEffects s k + diffErr (err k)\<bar>
                > 0.001 + thresholdErr (err k)")
  case False
  with run have "currentEffects (frame_rounded err s) k = targetEffects s k"
    by (simp add: frame_rounded_def step_rounded_current)
  then have "\<bar>targetEffects s k - currentEffects (frame_rounded err s) k\<bar> = 0" by simp
  moreover have "0 < \<bar>targetEffects s k - currentEffects s k\<bar>"
    by (rule less_trans [OF _ far]) simp
  ultimately show ?thesis by (simp only:)
next
  case True
  have inv: "settled_or_running s" using run by (simp add: settled_or_running_def)
  from frame_rounded_contracts [OF inv err eta(1), of k] far eta(2)
  show ?thesis by (rule contraction_strict)
qed

lemma rounded_tick_factor:
  assumes run: "animationFrame s" and eta: "0 \<le> eta" and err: "small eta err"
    and far: "0.001 + 2 * eta < \<bar>targetEffects s k - currentEffects s k\<bar>"
  shows "0.94 * \<bar>targetEffects s k - currentEffects s k\<bar> - 1.06 * eta
           \<le> \<bar>targetEffects s k - currentEffects (frame_rounded err s) k\<bar>"
proof -
  have e: "\<bar>diffErr (err k)\<bar> \<le> eta" "\<bar>stepErr (err k)\<bar> \<le> eta"
    and e3: "\<bar>thresholdErr (err k)\<bar> \<le> eta"
    using err by (simp_all add: small_def)
  define d where "d = targetEffects s k - currentEffects s k"
  have lerp: "\<bar>d + diffErr (err k)\<bar> > 0.001 + thresholdErr (err k)"
    using far e(1) e3 unfolding d_def by (rule measured_far)
  then have "currentEffects (frame_rounded err s) k
        = currentEffects s k + (d + diffErr (err k)) * 0.06 + stepErr (err k)"
    using run by (simp add: frame_rounded_def step_rounded_current lerp_def d_def)
  then have "targetEffects s k - currentEffects (frame_rounded err s) k
        = 0.94 * d - 0.06 * diffErr (err k) - stepErr (err k)"
    using lerp_residual [of "targetEffects s k" "currentEffects s k" "diffErr (err k)"
        "stepErr (err k)"]
    by (simp only: d_def)
  then show ?thesis using abs_affine_lower [OF e, of d] by (simp only: d_def)
qed

lemma rounded_tick_continues:
  assumes run: "animationFrame s" and err: "small eta err"
    and far: "0.001 + 2 * eta < \<bar>targetEffects s j - currentEffects s j\<bar>"
  shows "animationFrame (frame_rounded err s)"
proof -
  have e: "\<bar>diffErr (err j)\<bar> \<le> eta" "\<bar>thresholdErr (err j)\<bar> \<le> eta"
    using err by (simp_all add: small_def)
  have "\<bar>targetEffects s j - currentEffects s j + diffErr (err j)\<bar>
          > 0.001 + thresholdErr (err j)"
    using far e by (rule measured_far)
  then show ?thesis using run by (auto simp: frame_rounded_def step_rounded_pending)
qed

lemma rounded_tick_stops:
  assumes run: "animationFrame s" and err: "small eta err"
    and near: "\<forall>j. \<bar>targetEffects s j - currentEffects s j\<bar> + 2 * eta \<le> 0.001"
  shows "\<not> animationFrame (frame_rounded err s)"
    and "\<not> isAnimating (frame_rounded err s)"
    and "currentEffects (frame_rounded err s) j = targetEffects s j"
proof -
  have snap: "\<not> \<bar>targetEffects s j - currentEffects s j + diffErr (err j)\<bar>
                   > 0.001 + thresholdErr (err j)" for j
  proof -
    have "\<bar>diffErr (err j)\<bar> \<le> eta" "\<bar>thresholdErr (err j)\<bar> \<le> eta"
      using err by (simp_all add: small_def)
    moreover have "\<bar>targetEffects s j - currentEffects s j\<bar> + 2 * eta \<le> 0.001"
      using near by simp
    ultimately show ?thesis using measured_near by blast
  qed
  show "\<not> animationFrame (frame_rounded err s)"
    using run snap by (simp add: frame_rounded_def step_rounded_pending)
  show "\<not> isAnimating (frame_rounded err s)"
    using run snap by (simp add: frame_rounded_def step_rounded_isAnimating)
  show "currentEffects (frame_rounded err s) j = targetEffects s j"
    using run snap by (simp add: frame_rounded_def step_rounded_current)
qed

lemma rounded_loop_stops:
  assumes run: "animationFrame s" and eta: "0 \<le> eta" "eta \<le> 1 / 10 ^ 6"
    and errs: "\<forall>err \<in> set errs. small eta err"
    and two: "2 \<le> length errs"
    and len: "\<forall>j. 0.001 < \<bar>targetEffects s j - currentEffects s j\<bar> \<longrightarrow>
       nat \<lceil>log (1 / 0.94) (\<bar>targetEffects s j - currentEffects s j\<bar> / 0.001)\<rceil> + 2
         \<le> length errs"
  shows "\<not> animationFrame (frames_rounded errs s)"
    and "\<not> isAnimating (frames_rounded errs s)"
    and "currentEffects (frames_rounded errs s) k = targetEffects s k"
proof -
  have inv: "settled_or_running s" using run by (simp add: settled_or_running_def)
  from two obtain es e where split: "errs = es @ [e]"
    by (cases errs rule: rev_cases) auto
  have small: "\<forall>err \<in> set es. small eta err" "small eta e" using errs split by simp_all
  let ?s = "frames_rounded es s"
  have reach: "\<bar>targetEffects ?s j - currentEffects ?s j\<bar> + 2 * eta \<le> 0.001" for j
  proof -
    have "\<bar>targetEffects s j - currentEffects ?s j\<bar> + 2 * eta \<le> 0.001"
      using len two split by (intro rounded_in_reach [OF inv eta small(1)]) auto
    then show ?thesis by (simp only: frames_rounded_target)
  qed
  have inv': "settled_or_running ?s" by (rule frames_rounded_invariant [OF inv])
  have flag: "animationFrame ?s \<or> \<not> isAnimating ?s"
    by (rule frames_rounded_flag) (simp add: run)
  have r: "frames_rounded errs s = frame_rounded e ?s"
    by (simp add: split frames_rounded_snoc)
  show "\<not> animationFrame (frames_rounded errs s)"
  proof (cases "animationFrame ?s")
    case True
    show ?thesis unfolding r by (rule rounded_tick_stops(1) [OF True small(2)]) (use reach in simp)
  next
    case False
    then show ?thesis unfolding r by (simp add: frame_rounded_def)
  qed
  show "\<not> isAnimating (frames_rounded errs s)"
  proof (cases "animationFrame ?s")
    case True
    show ?thesis unfolding r by (rule rounded_tick_stops(2) [OF True small(2)]) (use reach in simp)
  next
    case False
    then show ?thesis unfolding r using flag by (simp add: frame_rounded_def)
  qed
  have "currentEffects (frame_rounded e ?s) k = targetEffects ?s k"
    by (rule frame_rounded_snaps [OF inv' small(2) reach])
  then show "currentEffects (frames_rounded errs s) k = targetEffects s k"
    unfolding r by (simp add: frames_rounded_target)
qed

lemma small_late: "small (1 / 10 ^ 9) late"
  by (simp add: small_def late_def)

lemma slow_start_fields:
  "currentEffects slow_start grayscale = 0"
  "targetEffects slow_start grayscale = 0.00105"
  "animationFrame slow_start"
proof -
  show "currentEffects slow_start grayscale = 0"
    by (simp add: slow_start_def update_fields constructor_def neutral_def effects_of_def)
  show "targetEffects slow_start grayscale = 0.00105"
    by (simp add: slow_start_def update_fields scoreTarget_def intensity_def THRESHOLDS_defs
        EFFECTS_defs effects_of_def Let_def)
  show "animationFrame slow_start"
    by (simp add: slow_start_def update_fields constructor_def)
qed

lemma ceiling_log_105: "nat \<lceil>log (1 / 0.94) (0.00105 / 0.001 :: real)\<rceil> = 1"
proof -
  have "0 < log (1 / 0.94) (0.00105 / 0.001 :: real)" by simp
  moreover have "log (1 / 0.94) (0.00105 / 0.001 :: real) \<le> 1" by simp
  ultimately have "\<lceil>log (1 / 0.94) (0.00105 / 0.001 :: real)\<rceil> = 1"
    by (intro ceiling_unique) simp_all
  then show ?thesis by simp
qed

text \<open>
  Claim C7 (convergence termination), as amended. The loop is running, the target is
  fixed and every rounding error of the tick arithmetic is at most \<open>eta \<le> 10\<^sup>-\<^sup>6\<close>
  (\<open>eta = 0\<close> is exact arithmetic). A tick on a channel whose distance \<open>d\<close> to the target
  exceeds 0.001 strictly decreases the distance; as long as \<open>d\<close> exceeds \<open>0.001 + 2 eta\<close>
  the new distance is \<open>0.94 d\<close> up to \<open>1.06 eta\<close>. With
  \<open>N = \<lceil>log (d / 0.001) / log (1 / 0.94)\<rceil>\<close> the channel is on its target after
  \<open>N + 2\<close> ticks, and after any larger number of ticks. A channel within
  \<open>0.001 - 2 eta\<close> of its target is set to it by one tick. The loop requests another
  frame while some channel is further than \<open>0.001 + 2 eta\<close> from its target. The tick on
  which every channel is set to its target stops the loop: no frame is pending,
  \<^verbatim>\<open>isAnimating\<close> is false, further animation frames change nothing, and
  \<^verbatim>\<open>update\<close> starts the loop again. The loop has stopped, every channel on its
  target, after two ticks or, when channels start further than 0.001 away, after the
  largest of their \<open>N + 2\<close>.
\<close>

theorem convergence_termination:
  assumes "animationFrame s" and "0 \<le> eta" and "eta \<le> 1 / 10 ^ 6"
    and "small eta err" and "\<forall>e \<in> set errs. small eta e"
  shows
    "(0.001 < \<bar>targetEffects s k - currentEffects s k\<bar> \<longrightarrow>
        \<bar>targetEffects s k - currentEffects (frame_rounded err s) k\<bar>
          < \<bar>targetEffects s k - currentEffects s k\<bar>)
     \<and> (0.001 + 2 * eta < \<bar>targetEffects s k - currentEffects s k\<bar> \<longrightarrow>
          0.94 * \<bar>targetEffects s k - currentEffects s k\<bar> - 1.06 * eta
            \<le> \<bar>targetEffects s k - currentEffects (frame_rounded err s) k\<bar>
        \<and> \<bar>targetEffects s k - currentEffects (frame_rounded err s) k\<bar>
            \<le> 0.94 * \<bar>targetEffects s k - currentEffects s k\<bar> + 1.06 * eta)
     \<and> (0.001 < \<bar>targetEffects s k - currentEffects s k\<bar>
        \<and> nat \<lceil>log (1 / 0.94) (\<bar>targetEffects s k - currentEffects s k\<bar> / 0.001)\<rceil> + 2
            \<le> length errs \<longrightarrow>
          currentEffects (frames_rounded errs s) k = targetEffects s k)
     \<and> (\<bar>targetEffects s k - currentEffects s k\<bar> + 2 * eta \<le> 0.001 \<longrightarrow>
          currentEffects (frame_rounded err s) k = targetEffects s k)
     \<and> ((\<exists>j. 0.001 + 2 * eta < \<bar>targetEffects s j - currentEffects s j\<bar>) \<longrightarrow>
          animationFrame (frame_rounded err s))
     \<and> ((\<forall>j. \<bar>targetEffects s j - currentEffects s j\<bar> + 2 * eta \<le> 0.001) \<longrightarrow>
          \<not> animationFrame (frame_rounded err s) \<and> \<not> isAnimating (frame_rounded err s)
          \<and> (\<forall>j. currentEffects (frame_rounded err s) j = targetEffects s j)
          \<and> (\<forall>more. frames_rounded more (frame_rounded err s) = frame_rounded err s)
          \<and> (\<forall>sc. animationFrame (update sc (frame_rounded err s))))
     \<and> (2 \<le> length errs
        \<and> (\<forall>j. 0.001 < \<bar>targetEffects s j - currentEffects s j\<bar> \<longrightarrow>
              nat \<lceil>log (1 / 0.94) (\<bar>targetEffects s j - currentEffects s j\<bar> / 0.001)\<rceil> + 2
                \<le> length errs) \<longrightarrow>
          \<not> animationFrame (frames_rounded errs s) \<and> \<not> isAnimating (frames_rounded errs s)
          \<and> (\<forall>j. currentEffects (frames_rounded errs s) j = targetEffects s j))"
proof -
  have inv: "settled_or_running s" using assms(1) by (simp add: settled_or_running_def)
  have dec: "0.001 < \<bar>targetEffects s k - currentEffects s k\<bar> \<Longrightarrow>
        \<bar>targetEffects s k - currentEffects (frame_rounded err s) k\<bar>
          < \<bar>targetEffects s k - currentEffects s k\<bar>"
    by (rule rounded_tick_decreases [OF assms(1-4)])
  have lo: "0.001 + 2 * eta < \<bar>targetEffects s k - currentEffects s k\<bar> \<Longrightarrow>
          0.94 * \<bar>targetEffects s k - currentEffects s k\<bar> - 1.06 * eta
            \<le> \<bar>targetEffects s k - currentEffects (frame_rounded err s) k\<bar>"
    by (rule rounded_tick_factor [OF assms(1,2,4)])
  have hi: "\<bar>targetEffects s k - currentEffects (frame_rounded err s) k\<bar>
            \<le> 0.94 * \<bar>targetEffects s k - currentEffects s k\<bar> + 1.06 * eta"
    by (rule frame_rounded_contracts [OF inv assms(4,2)])
  have snap: "0.001 < \<bar>targetEffects s k - currentEffects s k\<bar>
        \<and> nat \<lceil>log (1 / 0.94) (\<bar>targetEffects s k - currentEffects s k\<bar> / 0.001)\<rceil> + 2
            \<le> length errs \<Longrightarrow>
          currentEffects (frames_rounded errs s) k = targetEffects s k"
    using rounded_snap_bound [OF assms(1-3,5)] by blast
  have one: "\<bar>targetEffects s k - currentEffects s k\<bar> + 2 * eta \<le> 0.001 \<Longrightarrow>
          currentEffects (frame_rounded err s) k = targetEffects s k"
    by (rule frame_rounded_snaps [OF inv assms(4)])
  have running: "(\<exists>j. 0.001 + 2 * eta < \<bar>targetEffects s j - currentEffects s j\<bar>) \<Longrightarrow>
          animationFrame (frame_rounded err s)"
    using rounded_tick_continues [OF assms(1,4)] by blast
  have idle: "\<not> animationFrame (frame_rounded err s) \<and> \<not> isAnimating (frame_rounded err s)
          \<and> (\<forall>j. currentEffects (frame_rounded err s) j = targetEffects s j)
          \<and> (\<forall>more. frames_rounded more (frame_rounded err s) = frame_rounded err s)
          \<and> (\<forall>sc. animationFrame (update sc (frame_rounded err s)))"
    if all: "\<forall>j. \<bar>targetEffects s j - currentEffects s j\<bar> + 2 * eta \<le> 0.001"
  proof -
    note st = rounded_tick_stops [OF assms(1,4) all]
    from st(1,2) have "\<forall>sc. animationFrame (update sc (frame_rounded err s))"
      by (simp add: update_fields)
    with st show ?thesis by (simp add: frames_rounded_idle)
  qed
  have stops: "\<not> animationFrame (frames_rounded errs s) \<and> \<not> isAnimating (frames_rounded errs s)
          \<and> (\<forall>j. currentEffects (frames_rounded errs s) j = targetEffects s j)"
    if "2 \<le> length errs
        \<and> (\<forall>j. 0.001 < \<bar>targetEffects s j - currentEffects s j\<bar> \<longrightarrow>
              nat \<lceil>log (1 / 0.94) (\<bar>targetEffects s j - currentEffects s j\<bar> / 0.001)\<rceil> + 2
                \<le> length errs)"
    using rounded_loop_stops [OF assms(1-3,5)] that by blast
  from dec lo hi snap one running idle stops show ?thesis by blast
qed


text \<open>
  A run with rounding: from \<^verbatim>\<open>update(25.084)\<close> the bound \<open>N\<close> of the grayscale
  channel is 1; with every stored value \<open>10\<^sup>-\<^sup>9\<close> low the first tick brings the channel
  closer and after three ticks it is on its target.
\<close>

theorem convergence_termination_witness:
  "animationFrame slow_start
   \<and> small (1 / 10 ^ 9) late
   \<and> \<bar>targetEffects slow_start grayscale - currentEffects (frame_rounded late slow_start) grayscale\<bar>
       < 0.00105
   \<and> currentEffects (frames_rounded [late, late, late] slow_start) grayscale
       = targetEffects slow_start grayscale"
proof -
  have a: "animationFrame slow_start" by (rule slow_start_fields)
  have d: "\<bar>targetEffects slow_start grayscale - currentEffects slow_start grayscale\<bar> = 0.00105"
    by (simp add: slow_start_fields)
  have e: "(0::real) \<le> 1 / 10 ^ 9" "(1::real) / 10 ^ 9 \<le> 1 / 10 ^ 6" by simp_all
  have l: "\<forall>e \<in> set [late, late, late]. small (1 / 10 ^ 9) e" using small_late by simp
  have far: "(0.001::real) < 0.00105" by simp
  have n: "(1::nat) + 2 \<le> length [late, late, late]" by simp
  note t = convergence_termination [OF a e small_late l, of grayscale, unfolded d ceiling_log_105]
  from t far have
    "\<bar>targetEffects slow_start grayscale - currentEffects (frame_rounded late slow_start) grayscale\<bar>
       < 0.00105" by blast
  moreover from t far n have
    "currentEffects (frames_rounded [late, late, late] slow_start) grayscale
       = targetEffects slow_start grayscale" by blast
  ultimately show ?thesis using a small_late by (simp only: simp_thms)
qed

lemma edge_start_fields:
  "currentEffects edge_start grayscale = 0"
  "targetEffects edge_start grayscale = 1 / 940"
  "animationFrame edge_start"
proof -
  show "currentEffects edge_start grayscale = 0"
    by (simp add: edge_start_def update_fields constructor_def neutral_def effects_of_def)
  show "targetEffects edge_start grayscale = 1 / 940"
    by (simp add: edge_start_def update_fields scoreTarget_def intensity_def THRESHOLDS_defs
        EFFECTS_defs effects_of_def Let_def)
  show "animationFrame edge_start"
    by (simp add: edge_start_def update_fields constructor_def)
qed

lemma ceiling_log_edge: "nat \<lceil>log (1 / 0.94) ((1 / 940) / 0.001 :: real)\<rceil> = 1"
proof -
  have "log (1 / 0.94) ((1 / 940) / 0.001 :: real) = 1" by simp
  then show ?thesis by simp
qed

text \<open>
  Rounding can cost a tick. From an initial distance of 1/940 the bound is 1 and exact
  arithmetic snaps on tick 2; when the first tick ends \<open>10\<^sup>-\<^sup>9\<close> short, the distance
  after it is still above 0.001, the second tick interpolates again and the snap comes
  on tick 3.
\<close>

lemma rounding_costs_a_tick:
  "small (1 / 10 ^ 9) late \<and> small (1 / 10 ^ 9) exact
   \<and> nat \<lceil>log (1 / 0.94)
        (\<bar>targetEffects edge_start grayscale - currentEffects edge_start grayscale\<bar> / 0.001)\<rceil> = 1
   \<and> currentEffects ((frame ^^ 2) edge_start) grayscale = targetEffects edge_start grayscale
   \<and> currentEffects (frames_rounded [late, exact] edge_start) grayscale
       \<noteq> targetEffects edge_start grayscale
   \<and> currentEffects (frames_rounded [late, exact, exact] edge_start) grayscale
       = targetEffects edge_start grayscale"
proof -
  define s1 where "s1 = frame_rounded late edge_start"
  define s2 where "s2 = frame_rounded exact s1"
  define s3 where "s3 = frame_rounded exact s2"
  have r1: "s1 = step_rounded late edge_start"
    by (simp add: s1_def frame_rounded_def edge_start_fields)
  have c1: "currentEffects s1 grayscale = 1 / 940 * 0.06 - 1 / 10 ^ 9"
    unfolding r1 step_rounded_current by (simp add: edge_start_fields late_def lerp_def)
  have a1: "animationFrame s1"
    unfolding r1 step_rounded_pending
    by (rule exI [of _ grayscale]) (simp add: edge_start_fields late_def)
  have t1: "targetEffects s1 grayscale = 1 / 940"
    by (simp add: s1_def frame_rounded_target edge_start_fields)
  have r2: "s2 = step_rounded exact s1"
    by (simp add: s2_def frame_rounded_def a1)
  have c2: "currentEffects s2 grayscale
      = (1 / 940 * 0.06 - 1 / 10 ^ 9) + (1 / 940 - (1 / 940 * 0.06 - 1 / 10 ^ 9)) * 0.06"
    unfolding r2 step_rounded_current by (simp add: c1 t1 exact_def lerp_def)
  have a2: "animationFrame s2"
    unfolding r2 step_rounded_pending
    by (rule exI [of _ grayscale]) (simp add: c1 t1 exact_def)
  have t2: "targetEffects s2 grayscale = 1 / 940"
    by (simp add: s2_def frame_rounded_target t1)
  have r3: "s3 = step_rounded exact s2"
    by (simp add: s3_def frame_rounded_def a2)
  have c3: "currentEffects s3 grayscale = 1 / 940"
    unfolding r3 step_rounded_current by (simp add: c2 t2 exact_def)
  have e1: "currentEffects (frame edge_start) grayscale = 1 / 940 * 0.06"
    by (simp add: frame_def edge_start_fields step_current lerp_def)
  have ea: "animationFrame (frame edge_start)"
    unfolding frame_def using edge_start_fields(3)
    by (simp add: step_pending) (rule exI [of _ grayscale], simp add: edge_start_fields)
  have et: "targetEffects (frame edge_start) grayscale = 1 / 940"
    by (simp add: frame_target edge_start_fields)
  have e2: "currentEffects (frame (frame edge_start)) grayscale = 1 / 940"
    unfolding frame_def [of "frame edge_start"] using ea by (simp add: step_current e1 et)
  have se: "small (1 / 10 ^ 9) exact" by (simp add: small_def exact_def)
  have d: "\<bar>targetEffects edge_start grayscale - currentEffects edge_start grayscale\<bar> = 1 / 940"
    by (simp add: edge_start_fields)
  have two: "(frame ^^ 2) edge_start = frame (frame edge_start)"
    by (simp add: eval_nat_numeral)
  have f2: "frames_rounded [late, exact] edge_start = s2"
    by (simp add: frames_rounded_def s1_def s2_def)
  have f3: "frames_rounded [late, exact, exact] edge_start = s3"
    by (simp add: frames_rounded_def s1_def s2_def s3_def)
  have ne: "currentEffects s2 grayscale \<noteq> 1 / 940" unfolding c2 by simp
  show ?thesis
    unfolding d ceiling_log_edge two f2 f3
    unfolding edge_start_fields
    using small_late se ne c3 e2 by (simp only: simp_thms)
qed

lemma settled_fields:
  "\<not> animationFrame settled" "\<not> isAnimating settled"
  "currentEffects settled = neutral" "targetEffects settled = neutral"
proof -
  have u: "animationFrame (update 0 constructor)"
    "targetEffects (update 0 constructor) = neutral"
    "currentEffects (update 0 constructor) = neutral"
    by (simp_all add: update_fields constructor_def scoreTarget_def THRESHOLDS_defs neutral_def)
  show "\<not> animationFrame settled"
    by (simp add: settled_def frame_def u step_pending)
  show "\<not> isAnimating settled"
    by (simp add: settled_def frame_def u step_isAnimating)
  show "currentEffects settled = neutral"
    by (simp add: settled_def frame_def u step_current fun_eq_iff)
  show "targetEffects settled = neutral"
    by (simp add: settled_def frame_target u)
qed

text \<open>
  Claim C7 as stated fails: with an initial distance of 0.00105 the stated bound
  \<open>\<lceil>log (d / 0.001) / log (1 / 0.94)\<rceil>\<close> is 1, but after one tick the channel is at
  0.000063, not at its target: the snap branch runs on a later tick than the one that
  brings the distance to 0.001. Moreover a stopped loop is not started by every change of
  a target: on the settled engine \<^verbatim>\<open>breathe\<close> moves the grayscale target from 0 to
  0.6, but, unlike \<^verbatim>\<open>update\<close>, it does not call \<^verbatim>\<open>_startAnimation\<close>; no frame
  is pending and the channel stays at 0.
\<close>

theorem convergence_bound_counterexample:
  "animationFrame slow_start
   \<and> 0.001 < \<bar>targetEffects slow_start grayscale - currentEffects slow_start grayscale\<bar>
   \<and> nat \<lceil>log (1 / 0.94)
        (\<bar>targetEffects slow_start grayscale - currentEffects slow_start grayscale\<bar> / 0.001)\<rceil> = 1
   \<and> currentEffects ((frame ^^ 1) slow_start) grayscale = 0.000063
   \<and> currentEffects ((frame ^^ 1) slow_start) grayscale \<noteq> targetEffects slow_start grayscale
   \<and> \<not> animationFrame settled
   \<and> currentEffects settled = targetEffects settled
   \<and> targetEffects settled grayscale = 0
   \<and> targetEffects (breathe 0 settled) grayscale = 0.6
   \<and> currentEffects (breathe 0 settled) grayscale = 0
   \<and> \<not> animationFrame (breathe 0 settled)
   \<and> frame (breathe 0 settled) = breathe 0 settled"
proof -
  have "currentEffects (frame slow_start) grayscale = 0.000063"
    by (simp add: frame_def slow_start_fields step_current lerp_def)
  moreover have "\<bar>targetEffects slow_start grayscale - currentEffects slow_start grayscale\<bar>
      = 0.00105" by (simp add: slow_start_fields)
  moreover have "\<not> animationFrame (breathe 0 settled)"
    by (simp add: breathe_def Let_def settled_fields)
  moreover have "frame (breathe 0 settled) = breathe 0 settled"
    by (simp add: frame_def breathe_def Let_def settled_fields)
  ultimately show ?thesis using ceiling_log_105
    by (simp add: slow_start_fields settled_fields breathe_fields calming_values neutral_def
        effects_of_def)
qed

subsection \<open>The breathe override\<close>








section \<open>Properties of the histogram distance\<close>

lemma chi_term_in_range:
  "i < length h2 \<Longrightarrow> chi_term h1 h2 i diff = diff + bin_term h1 h2 i"
  by (simp add: chi_term_def js_index_def bin_term_def Let_def)

lemma fold_chi_term:
  "n \<le> length h2 \<Longrightarrow> fold (chi_term h1 h2) [0..<n] diff = diff + (\<Sum>i<n. bin_term h1 h2 i)"
proof (induction n)
  case 0
  show ?case by simp
next
  case (Suc n)
  then show ?case by (simp add: chi_term_in_range)
qed

lemma histogramDiff_sum:
  assumes "h1 \<noteq> []" "length h1 = length h2"
  shows "histogramDiff h1 h2 = Some ((\<Sum>i<length h1. bin_term h1 h2 i) / real (length h1))"
  using assms by (auto simp add: histogramDiff_def fold_chi_term)

lemma jsHistogramDistance_eq: "jsHistogramDistance h1 h2 = histogramDiff h1 h2"
  by (simp add: jsHistogramDistance_def histogramDiff_def)

lemma bin_term_self: "bin_term h h i = 0"
  by (simp add: bin_term_def)

lemma bin_term_sym: "bin_term h1 h2 i = bin_term h2 h1 i"
  by (simp add: bin_term_def add.commute power2_commute)

lemma bin_term_nonneg: "0 \<le> bin_term h1 h2 i"
  by (simp add: bin_term_def)

lemma bin_term_nonzero_sum:
  assumes "0 \<le> h1 ! i" "0 \<le> h2 ! i"
  shows "bin_term h1 h2 i =
     (if h1 ! i + h2 ! i \<noteq> 0 then (h1 ! i - h2 ! i)\<^sup>2 / (h1 ! i + h2 ! i) else 0)"
  using assms by (simp add: bin_term_def)

text \<open>
  Claim C6 (histogram distance algebra). For histograms of equal length with
  non-negative entries (a histogram has at least one bin), the distance of a histogram to
  itself is 0, the distance is symmetric and not negative, and it is the sum of
  \<open>(h1[i] - h2[i])\<^sup>2 / (h1[i] + h2[i])\<close> over the bins with non-zero sum, divided by the
  number of bins. The same holds for the bridge's fallback, which computes the same
  value.
\<close>

theorem histogram_distance_algebra:
  assumes "h1 \<noteq> []" and "length h1 = length h2"
    and "\<forall>x \<in> set h1. 0 \<le> x" and "\<forall>x \<in> set h2. 0 \<le> x"
  shows "histogramDiff h1 h1 = Some 0
     \<and> histogramDiff h1 h2 = histogramDiff h2 h1
     \<and> (\<exists>d. histogramDiff h1 h2 = Some d \<and> 0 \<le> d)
     \<and> histogramDiff h1 h2 =
         Some ((\<Sum>i<length h1. if h1 ! i + h2 ! i \<noteq> 0
                                 then (h1 ! i - h2 ! i)\<^sup>2 / (h1 ! i + h2 ! i) else 0)
               / real (length h1))
     \<and> jsHistogramDistance h1 h1 = Some 0
     \<and> jsHistogramDistance h1 h2 = jsHistogramDistance h2 h1
     \<and> (\<exists>d. jsHistogramDistance h1 h2 = Some d \<and> 0 \<le> d)
     \<and> jsHistogramDistance h1 h2 = histogramDiff h1 h2"
proof -
  have h2: "h2 \<noteq> []" using assms(1,2) by auto
  have self: "histogramDiff h1 h1 = Some 0"
    using histogramDiff_sum [of h1 h1] assms(1) by (simp add: bin_term_self)
  have sym: "histogramDiff h1 h2 = histogramDiff h2 h1"
    using histogramDiff_sum [of h1 h2] histogramDiff_sum [of h2 h1] assms(1,2) h2
      bin_term_sym [of h1 h2] by simp
  have "0 \<le> (\<Sum>i<length h1. bin_term h1 h2 i)"
    by (intro sum_nonneg bin_term_nonneg)
  then have nonneg: "\<exists>d. histogramDiff h1 h2 = Some d \<and> 0 \<le> d"
    using histogramDiff_sum [OF assms(1,2)] by simp
  have "(\<Sum>i<length h1. bin_term h1 h2 i) =
      (\<Sum>i<length h1. if h1 ! i + h2 ! i \<noteq> 0
                         then (h1 ! i - h2 ! i)\<^sup>2 / (h1 ! i + h2 ! i) else 0)"
  proof (rule sum.cong)
    fix i assume "i \<in> {..<length h1}"
    then have "0 \<le> h1 ! i" "0 \<le> h2 ! i" using assms(2,3,4) by auto
    then show "bin_term h1 h2 i =
      (if h1 ! i + h2 ! i \<noteq> 0 then (h1 ! i - h2 ! i)\<^sup>2 / (h1 ! i + h2 ! i) else 0)"
      by (rule bin_term_nonzero_sum)
  qed simp
  then have formula: "histogramDiff h1 h2 =
         Some ((\<Sum>i<length h1. if h1 ! i + h2 ! i \<noteq> 0
                                 then (h1 ! i - h2 ! i)\<^sup>2 / (h1 ! i + h2 ! i) else 0)
               / real (length h1))"
    using histogramDiff_sum [OF assms(1,2)] by simp
  show ?thesis
    using self sym nonneg formula by (simp add: jsHistogramDistance_eq)
qed

text \<open>
Three bins: the distance between (0.5, 0.5, 0) and (1, 0, 0) is 2/9.
\<close>

theorem histogram_distance_algebra_witness:
  "histogramDiff [0.5, 0.5, 0] [0.5, 0.5, 0] = Some 0
   \<and> histogramDiff [0.5, 0.5, 0] [1, 0, 0] = histogramDiff [1, 0, 0] [0.5, 0.5, 0]
   \<and> histogramDiff [0.5, 0.5, 0] [1, 0, 0] = Some (2 / 9)
   \<and> jsHistogramDistance [0.5, 0.5, 0] [1, 0, 0] = Some (2 / 9)"
proof -
  have a: "[0.5, 0.5, 0 :: real] \<noteq> []" "length [0.5, 0.5, 0 :: real] = length [1, 0, 0 :: real]"
    "\<forall>x \<in> set [0.5, 0.5, 0 :: real]. 0 \<le> x" "\<forall>x \<in> set [1, 0, 0 :: real]. 0 \<le> x"
    by simp_all
  have v: "(\<Sum>i<length [0.5, 0.5, 0 :: real].
              if [0.5, 0.5, 0] ! i + [1, 0, 0 :: real] ! i \<noteq> 0
              then ([0.5, 0.5, 0] ! i - [1, 0, 0] ! i)\<^sup>2 / ([0.5, 0.5, 0] ! i + [1, 0, 0] ! i)
              else 0) / real (length [0.5, 0.5, 0 :: real]) = 2 / 9"
    by (simp add: lessThan_Suc numeral_3_eq_3 power2_eq_square)
  note r = histogram_distance_algebra [OF a, unfolded v]
  from r have "histogramDiff [0.5, 0.5, 0] [0.5, 0.5, 0] = Some 0" by (rule conjunct1)
  moreover from r have "histogramDiff [0.5, 0.5, 0] [1, 0, 0] = histogramDiff [1, 0, 0] [0.5, 0.5, 0]"
    by blast
  moreover from r have "histogramDiff [0.5, 0.5, 0] [1, 0, 0] = Some (2 / 9)" by blast
  moreover from r have "jsHistogramDistance [0.5, 0.5, 0] [1, 0, 0]
      = histogramDiff [0.5, 0.5, 0] [1, 0, 0]" by blast
  ultimately show ?thesis by (simp only: simp_thms)
qed

lemma sum_list_nth_sum: "sum_list xs = (\<Sum>i<length xs. xs ! i)"
  by (simp add: sum_list_sum_nth atLeast0LessThan)

subsection \<open>The graph and its rounding\<close>

lemma sceneCutGraph_sum:
  assumes "length errs = 48" "length h1 = 48" "length h2 = 48"
  shows "sceneCutGraph errs h1 h2 = (\<Sum>i<48. graph_cell (errs ! i) (h1 ! i) (h2 ! i)) / 48"
  using assms
  by (simp add: sceneCutGraph_def reduceMean_def Let_def sum_list_nth_sum graph_cell_def)

lemma graph_cell_exact: "graph_cell exact32 a b = (a - b)\<^sup>2 / (a + b + 1 / 10 ^ 10)"
  by (simp add: graph_cell_def exact32_def rounded_def power2_eq_square)

lemma factor_between:
  fixes err u :: real
  assumes "\<bar>err\<bar> \<le> u"
  shows "1 - u \<le> 1 + err" "1 + err \<le> 1 + u"
  using assms by linarith+

lemma product_between:
  fixes x y :: real
  assumes "lo1 \<le> x" "x \<le> hi1" "lo2 \<le> y" "y \<le> hi2" "0 \<le> lo1" "0 \<le> lo2"
  shows "lo1 * lo2 \<le> x * y" "x * y \<le> hi1 * hi2"
proof -
  have x: "0 \<le> x" and y: "0 \<le> y" and h: "0 \<le> hi1" using assms by linarith+
  show "lo1 * lo2 \<le> x * y" by (rule mult_mono [OF assms(1,3) x assms(6)])
  show "x * y \<le> hi1 * hi2" by (rule mult_mono [OF assms(2,4) h y])
qed

text \<open>
  The value of a cell under single-precision rounding is within a factor of
  \<open>1 \<plusminus> 6 \<sqdot> 10\<^sup>-\<^sup>5\<close> of the cell's exact term.
\<close>

lemma cell_rounding:
  fixes a b :: real
  assumes "0 \<le> a" "0 \<le> b" "single_precision e"
  shows "(1 - 6 / 10 ^ 5) * ((a - b)\<^sup>2 / (a + b + 1 / 10 ^ 10)) \<le> graph_cell e a b"
    and "graph_cell e a b \<le> (1 + 6 / 10 ^ 5) * ((a - b)\<^sup>2 / (a + b + 1 / 10 ^ 10))"
proof -
  define lo hi mlo mhi :: real
    where "lo = 1 - 1 / 10 ^ 6" and "hi = 1 + 1 / 10 ^ 6"
      and "mlo = 1 - 5 / 10 ^ 5" and "mhi = 1 + 5 / 10 ^ 5"
  define f1 f2 f3 f4 f5 f6 f7
    where "f1 = 1 + subErr e" and "f2 = 1 + mulErr e" and "f3 = 1 + addErr e"
      and "f4 = 1 + epsErr e" and "f5 = 1 + denErr e" and "f6 = 1 + divErr e"
      and "f7 = 1 + meanErr e"
  define q S N D
    where "q = (a - b)\<^sup>2" and "S = a + b + 1 / 10 ^ 10"
      and "N = f1 * f1 * f2 * f6 * f7"
      and "D = ((a + b) * f3 + 1 / 10 ^ 10 * f4) * f5"
  have e: "\<bar>subErr e\<bar> \<le> 1 / 10 ^ 6" "\<bar>mulErr e\<bar> \<le> 1 / 10 ^ 6" "\<bar>addErr e\<bar> \<le> 1 / 10 ^ 6"
    "\<bar>epsErr e\<bar> \<le> 1 / 10 ^ 6" "\<bar>denErr e\<bar> \<le> 1 / 10 ^ 6" "\<bar>divErr e\<bar> \<le> 1 / 10 ^ 6"
    "\<bar>meanErr e\<bar> \<le> 5 / 10 ^ 5"
    using assms(3) by (simp_all add: single_precision_def)
  have b1: "lo \<le> f1" "f1 \<le> hi" unfolding lo_def hi_def f1_def by (rule factor_between [OF e(1)])+
  have b2: "lo \<le> f2" "f2 \<le> hi" unfolding lo_def hi_def f2_def by (rule factor_between [OF e(2)])+
  have b3: "lo \<le> f3" "f3 \<le> hi" unfolding lo_def hi_def f3_def by (rule factor_between [OF e(3)])+
  have b4: "lo \<le> f4" "f4 \<le> hi" unfolding lo_def hi_def f4_def by (rule factor_between [OF e(4)])+
  have b5: "lo \<le> f5" "f5 \<le> hi" unfolding lo_def hi_def f5_def by (rule factor_between [OF e(5)])+
  have b6: "lo \<le> f6" "f6 \<le> hi" unfolding lo_def hi_def f6_def by (rule factor_between [OF e(6)])+
  have b7: "mlo \<le> f7" "f7 \<le> mhi"
    unfolding mlo_def mhi_def f7_def by (rule factor_between [OF e(7)])+
  have lo0: "0 \<le> lo" "0 < lo" "0 \<le> mlo" by (simp_all add: lo_def mlo_def)
  have q0: "0 \<le> q" by (simp add: q_def)
  have S0: "0 < S" "0 \<le> S" using assms(1,2) by (simp_all add: S_def add_nonneg_pos)
  have s0: "0 \<le> a + b" using assms(1,2) by simp
  note n1 = product_between [OF b1 b1 lo0(1) lo0(1)]
  have l2: "0 \<le> lo * lo" using lo0(1) by simp
  note n2 = product_between [OF n1 b2 l2 lo0(1)]
  have l3: "0 \<le> lo * lo * lo" using lo0(1) by simp
  note n3 = product_between [OF n2 b6 l3 lo0(1)]
  have l4: "0 \<le> lo * lo * lo * lo" using lo0(1) by simp
  note n4 = product_between [OF n3 b7 l4 lo0(3)]
  have N: "lo * lo * lo * lo * mlo \<le> N" "N \<le> hi * hi * hi * hi * mhi"
    using n4 by (simp_all add: N_def)
  have N0: "0 \<le> N"
    by (rule order_trans [OF _ N(1)]) (simp add: lo0)
  have i1: "(a + b) * lo \<le> (a + b) * f3" "(a + b) * f3 \<le> (a + b) * hi"
    using b3 s0 by (simp_all add: mult_left_mono)
  have i2: "1 / 10 ^ 10 * lo \<le> 1 / 10 ^ 10 * f4" "1 / 10 ^ 10 * f4 \<le> 1 / 10 ^ 10 * hi"
    using b4 by simp_all
  have inner: "S * lo \<le> (a + b) * f3 + 1 / 10 ^ 10 * f4"
    "(a + b) * f3 + 1 / 10 ^ 10 * f4 \<le> S * hi"
  proof -
    have "S * lo = (a + b) * lo + 1 / 10 ^ 10 * lo" by (simp add: S_def algebra_simps)
    then show "S * lo \<le> (a + b) * f3 + 1 / 10 ^ 10 * f4" using i1(1) i2(1) by linarith
    have "S * hi = (a + b) * hi + 1 / 10 ^ 10 * hi" by (simp add: S_def algebra_simps)
    then show "(a + b) * f3 + 1 / 10 ^ 10 * f4 \<le> S * hi" using i1(2) i2(2) by linarith
  qed
  have sl: "0 \<le> S * lo" using S0(2) lo0(1) by simp
  note d1 = product_between [OF inner b5 sl lo0(1)]
  have D: "S * lo * lo \<le> D" "D \<le> S * hi * hi" using d1 by (simp_all add: D_def)
  have D0: "0 < D"
    by (rule less_le_trans [OF _ D(1)]) (simp add: S0 lo0)
  have num1: "hi * hi * hi * hi * mhi \<le> (1 + 6 / 10 ^ 5) * (lo * lo)"
    by (simp add: lo_def hi_def mhi_def)
  have num2: "(1 - 6 / 10 ^ 5) * (hi * hi) \<le> lo * lo * lo * lo * mlo"
    by (simp add: lo_def hi_def mlo_def)
  have cell: "graph_cell e a b = q * N / D"
    by (simp add: graph_cell_def rounded_def q_def N_def D_def f1_def f2_def f3_def f4_def
        f5_def f6_def f7_def power2_eq_square ac_simps)
  have up: "N * S \<le> (1 + 6 / 10 ^ 5) * D"
  proof -
    have "N * S \<le> (hi * hi * hi * hi * mhi) * S"
      by (rule mult_right_mono [OF N(2) S0(2)])
    also have "\<dots> \<le> ((1 + 6 / 10 ^ 5) * (lo * lo)) * S"
      by (rule mult_right_mono [OF num1 S0(2)])
    also have "\<dots> = (1 + 6 / 10 ^ 5) * (S * lo * lo)" by (simp add: ac_simps)
    also have "\<dots> \<le> (1 + 6 / 10 ^ 5) * D"
      by (rule mult_left_mono [OF D(1)]) simp
    finally show ?thesis .
  qed
  have down: "(1 - 6 / 10 ^ 5) * D \<le> N * S"
  proof -
    have "(1 - 6 / 10 ^ 5) * D \<le> (1 - 6 / 10 ^ 5) * (S * hi * hi)"
      by (rule mult_left_mono [OF D(2)]) simp
    also have "\<dots> = ((1 - 6 / 10 ^ 5) * (hi * hi)) * S" by (simp add: ac_simps)
    also have "\<dots> \<le> (lo * lo * lo * lo * mlo) * S"
      by (rule mult_right_mono [OF num2 S0(2)])
    also have "\<dots> \<le> N * S"
      by (rule mult_right_mono [OF N(1) S0(2)])
    finally show ?thesis .
  qed
  have DS: "0 < D * S" using D0 S0(1) by simp
  have lhs: "q * N / D = q * (N * S) / (D * S)" using S0(1) by simp
  have rhs: "c * (q / S) = q * (c * D) / (D * S)" for c :: real
    using D0 by simp
  have "q * (N * S) / (D * S) \<le> q * ((1 + 6 / 10 ^ 5) * D) / (D * S)"
    by (intro divide_right_mono mult_left_mono up q0 less_imp_le [OF DS])
  then show "graph_cell e a b \<le> (1 + 6 / 10 ^ 5) * ((a - b)\<^sup>2 / (a + b + 1 / 10 ^ 10))"
    unfolding cell lhs rhs [symmetric] by (simp only: q_def S_def)
  have "q * ((1 - 6 / 10 ^ 5) * D) / (D * S) \<le> q * (N * S) / (D * S)"
    by (intro divide_right_mono mult_left_mono down q0 less_imp_le [OF DS])
  then show "(1 - 6 / 10 ^ 5) * ((a - b)\<^sup>2 / (a + b + 1 / 10 ^ 10)) \<le> graph_cell e a b"
    unfolding cell lhs rhs [symmetric] by (simp only: q_def S_def)
qed

text \<open>
  The epsilon of the graph: on a bin whose sum is 0 or at least \<open>10\<^sup>-\<^sup>5\<close> the exact term
  of the graph is at most the term of the reference and at least \<open>1 - 10\<^sup>-\<^sup>5\<close> times it.
\<close>

lemma bin_gap:
  fixes a b :: real
  assumes "0 \<le> a" "0 \<le> b" "a + b = 0 \<or> 1 / 10 ^ 5 \<le> a + b"
  shows "(a - b)\<^sup>2 / (a + b + 1 / 10 ^ 10)
           \<le> (if a + b > 0 then (a - b)\<^sup>2 / (a + b) else 0)"
    and "(1 - 1 / 10 ^ 5) * (if a + b > 0 then (a - b)\<^sup>2 / (a + b) else 0)
           \<le> (a - b)\<^sup>2 / (a + b + 1 / 10 ^ 10)"
proof -
  have "(a - b)\<^sup>2 / (a + b + 1 / 10 ^ 10)
           \<le> (if a + b > 0 then (a - b)\<^sup>2 / (a + b) else 0)
      \<and> (1 - 1 / 10 ^ 5) * (if a + b > 0 then (a - b)\<^sup>2 / (a + b) else 0)
           \<le> (a - b)\<^sup>2 / (a + b + 1 / 10 ^ 10)"
  proof (cases "a + b > 0")
    case False
    with assms(1,2) have "a = 0" by linarith
    moreover from False assms(1,2) have "b = 0" by linarith
    ultimately show ?thesis by simp
  next
    case True
    define s where "s = a + b"
    define q where "q = (a - b)\<^sup>2"
    have s: "1 / 10 ^ 5 \<le> s" "0 < s" using True assms(3) by (auto simp: s_def)
    have q: "0 \<le> q" by (simp add: q_def)
    have up: "1 / (s + 1 / 10 ^ 10) \<le> 1 / s"
      using s(2) by (simp add: field_simps)
    have lo: "(1 - 1 / 10 ^ 5) * (1 / s) \<le> 1 / (s + 1 / 10 ^ 10)"
      using s by (simp add: field_simps)
    have "q * (1 / (s + 1 / 10 ^ 10)) \<le> q * (1 / s)"
      by (rule mult_left_mono [OF up q])
    moreover have "q * ((1 - 1 / 10 ^ 5) * (1 / s)) \<le> q * (1 / (s + 1 / 10 ^ 10))"
      by (rule mult_left_mono [OF lo q])
    ultimately have "q / (s + 1 / 10 ^ 10) \<le> q / s
        \<and> (1 - 1 / 10 ^ 5) * (q / s) \<le> q / (s + 1 / 10 ^ 10)"
      by (simp add: algebra_simps)
    then show ?thesis using True by (simp add: s_def q_def)
  qed
  then show "(a - b)\<^sup>2 / (a + b + 1 / 10 ^ 10)
           \<le> (if a + b > 0 then (a - b)\<^sup>2 / (a + b) else 0)"
    and "(1 - 1 / 10 ^ 5) * (if a + b > 0 then (a - b)\<^sup>2 / (a + b) else 0)
           \<le> (a - b)\<^sup>2 / (a + b + 1 / 10 ^ 10)"
    by simp_all
qed

lemma envelope_chain:
  fixes x y R :: real
  assumes "(1 - 6 / 10 ^ 5) * x \<le> y" "(1 - 1 / 10 ^ 5) * R \<le> x" "0 \<le> R"
  shows "(1 - 7 / 10 ^ 5) * R \<le> y"
proof -
  have "(1 - 7 / 10 ^ 5) * R \<le> (1 - 6 / 10 ^ 5) * ((1 - 1 / 10 ^ 5) * R)"
    using assms(3) by (simp add: field_simps)
  also have "\<dots> \<le> (1 - 6 / 10 ^ 5) * x"
    by (rule mult_left_mono [OF assms(2)]) simp
  also have "\<dots> \<le> y" by (rule assms(1))
  finally show ?thesis .
qed

lemma tolerance_from_envelope:
  fixes g r r' :: real
  assumes "(1 - 7 / 10 ^ 5) * r \<le> g" "g \<le> (1 + 6 / 10 ^ 5) * r" "\<bar>r' - r\<bar> \<le> r / 10 ^ 9"
  shows "\<bar>g - r'\<bar> \<le> 1 / 10 ^ 4 * \<bar>r'\<bar>"
  using assms by (simp add: abs_if field_simps split: if_splits)

lemma graph_rounding:
  assumes "length errs = 48" and "length h1 = 48" and "length h2 = 48"
    and "\<forall>x \<in> set h1. 0 \<le> x" and "\<forall>x \<in> set h2. 0 \<le> x"
    and "\<forall>e \<in> set errs. single_precision e"
  shows "(1 - 6 / 10 ^ 5) * sceneCutGraph (replicate 48 exact32) h1 h2
           \<le> sceneCutGraph errs h1 h2"
    and "sceneCutGraph errs h1 h2
           \<le> (1 + 6 / 10 ^ 5) * sceneCutGraph (replicate 48 exact32) h1 h2"
proof -
  let ?x = "\<lambda>i. (h1 ! i - h2 ! i)\<^sup>2 / (h1 ! i + h2 ! i + 1 / 10 ^ 10)"
  let ?y = "\<lambda>i. graph_cell (errs ! i) (h1 ! i) (h2 ! i)"
  have ex: "sceneCutGraph (replicate 48 exact32) h1 h2 = (\<Sum>i<48. ?x i) / 48"
    using sceneCutGraph_sum [of "replicate 48 exact32" h1 h2] assms(2,3)
    by (simp add: graph_cell_exact)
  have g: "sceneCutGraph errs h1 h2 = (\<Sum>i<48. ?y i) / 48"
    by (rule sceneCutGraph_sum [OF assms(1-3)])
  have cells: "(1 - 6 / 10 ^ 5) * ?x i \<le> ?y i \<and> ?y i \<le> (1 + 6 / 10 ^ 5) * ?x i"
    if "i < 48" for i
  proof -
    have "0 \<le> h1 ! i" "0 \<le> h2 ! i" "single_precision (errs ! i)"
      using that assms by auto
    then show ?thesis using cell_rounding by blast
  qed
  have "(\<Sum>i<48. (1 - 6 / 10 ^ 5) * ?x i) \<le> (\<Sum>i<48. ?y i)"
    by (rule sum_mono) (use cells in simp)
  then have lo: "(1 - 6 / 10 ^ 5) * (\<Sum>i<48. ?x i) \<le> (\<Sum>i<48. ?y i)"
    by (simp only: sum_distrib_left)
  have "(\<Sum>i<48. ?y i) \<le> (\<Sum>i<48. (1 + 6 / 10 ^ 5) * ?x i)"
    by (rule sum_mono) (use cells in simp)
  then have hi: "(\<Sum>i<48. ?y i) \<le> (1 + 6 / 10 ^ 5) * (\<Sum>i<48. ?x i)"
    by (simp only: sum_distrib_left)
  show "(1 - 6 / 10 ^ 5) * sceneCutGraph (replicate 48 exact32) h1 h2
           \<le> sceneCutGraph errs h1 h2"
    unfolding ex g using lo by (simp add: field_simps)
  show "sceneCutGraph errs h1 h2
           \<le> (1 + 6 / 10 ^ 5) * sceneCutGraph (replicate 48 exact32) h1 h2"
    unfolding ex g using hi by (simp add: field_simps)
qed

lemma graph_epsilon:
  assumes "length h1 = 48" and "length h2 = 48"
    and "\<forall>x \<in> set h1. 0 \<le> x" and "\<forall>x \<in> set h2. 0 \<le> x"
    and "\<forall>(a, b) \<in> set (zip h1 h2). a + b = 0 \<or> 1 / 10 ^ 5 \<le> a + b"
  shows "\<exists>r. jsHistogramDistance h1 h2 = Some r \<and> 0 \<le> r
     \<and> sceneCutGraph (replicate 48 exact32) h1 h2 \<le> r
     \<and> (1 - 1 / 10 ^ 5) * r \<le> sceneCutGraph (replicate 48 exact32) h1 h2"
proof -
  let ?x = "\<lambda>i. (h1 ! i - h2 ! i)\<^sup>2 / (h1 ! i + h2 ! i + 1 / 10 ^ 10)"
  let ?X = "\<Sum>i<48. ?x i"
  let ?R = "\<Sum>i<48. bin_term h1 h2 i"
  have ne: "h1 \<noteq> []" using assms(1) by auto
  have r: "jsHistogramDistance h1 h2 = Some (?R / 48)"
    using histogramDiff_sum [OF ne] assms(1,2) by (simp add: jsHistogramDistance_eq)
  have ex: "sceneCutGraph (replicate 48 exact32) h1 h2 = ?X / 48"
    using sceneCutGraph_sum [of "replicate 48 exact32" h1 h2] assms(1,2)
    by (simp add: graph_cell_exact)
  have bins: "?x i \<le> bin_term h1 h2 i \<and> (1 - 1 / 10 ^ 5) * bin_term h1 h2 i \<le> ?x i"
    if "i < 48" for i
  proof -
    have n: "0 \<le> h1 ! i" "0 \<le> h2 ! i" using that assms(1-4) by auto
    have "(h1 ! i, h2 ! i) \<in> set (zip h1 h2)"
      using that assms(1,2) by (auto simp: in_set_zip)
    then have s: "h1 ! i + h2 ! i = 0 \<or> 1 / 10 ^ 5 \<le> h1 ! i + h2 ! i"
      using assms(5) by blast
    show ?thesis unfolding bin_term_def using bin_gap [OF n s] by blast
  qed
  have le: "?X \<le> ?R" by (rule sum_mono) (use bins in simp)
  have "(\<Sum>i<48. (1 - 1 / 10 ^ 5) * bin_term h1 h2 i) \<le> ?X"
    by (rule sum_mono) (use bins in simp)
  then have ge: "(1 - 1 / 10 ^ 5) * ?R \<le> ?X" by (simp only: sum_distrib_left)
  have R0: "0 \<le> ?R" by (intro sum_nonneg bin_term_nonneg)
  have "0 \<le> ?R / 48" using R0 by simp
  moreover have "?X / 48 \<le> ?R / 48" using le by simp
  moreover have "(1 - 1 / 10 ^ 5) * (?R / 48) \<le> ?X / 48" using ge by (simp add: field_simps)
  ultimately show ?thesis unfolding ex using r by blast
qed

lemma dual_path_general:
  assumes "length h1 = 48" and "length h2 = 48" and "length errs = 48"
    and "\<forall>x \<in> set h1. 0 \<le> x" and "\<forall>x \<in> set h2. 0 \<le> x"
    and "\<forall>(a, b) \<in> set (zip h1 h2). a + b = 0 \<or> 1 / 10 ^ 5 \<le> a + b"
    and "\<forall>e \<in> set errs. single_precision e"
  shows "\<exists>r. jsHistogramDistance h1 h2 = Some r
     \<and> \<bar>sceneCutGraph errs h1 h2 - r\<bar> \<le> 1 / 10 ^ 4 * \<bar>r\<bar>
     \<and> (\<forall>r'. \<bar>r' - r\<bar> \<le> r / 10 ^ 9 \<longrightarrow>
           \<bar>sceneCutGraph errs h1 h2 - r'\<bar> \<le> 1 / 10 ^ 4 * \<bar>r'\<bar>)"
proof -
  let ?g = "sceneCutGraph errs h1 h2"
  let ?x = "sceneCutGraph (replicate 48 exact32) h1 h2"
  from graph_epsilon [OF assms(1,2,4,5,6)] obtain r where
    r: "jsHistogramDistance h1 h2 = Some r" "0 \<le> r" "?x \<le> r" "(1 - 1 / 10 ^ 5) * r \<le> ?x"
    by blast
  note round = graph_rounding [OF assms(3,1,2,4,5,7)]
  have lo: "(1 - 7 / 10 ^ 5) * r \<le> ?g"
    by (rule envelope_chain [OF round(1) r(4) r(2)])
  have "(1 + 6 / 10 ^ 5) * ?x \<le> (1 + 6 / 10 ^ 5) * r"
    by (rule mult_left_mono [OF r(3)]) simp
  with round(2) have hi: "?g \<le> (1 + 6 / 10 ^ 5) * r" by linarith
  have all: "\<bar>?g - r'\<bar> \<le> 1 / 10 ^ 4 * \<bar>r'\<bar>" if "\<bar>r' - r\<bar> \<le> r / 10 ^ 9" for r'
    by (rule tolerance_from_envelope [OF lo hi that])
  have "\<bar>r - r\<bar> \<le> r / 10 ^ 9" using r(2) by simp
  then have own: "\<bar>?g - r\<bar> \<le> 1 / 10 ^ 4 * \<bar>r\<bar>" by (rule all)
  from r(1) own all show ?thesis by blast
qed

lemma single_precision_up32: "single_precision up32"
  by (simp add: single_precision_def up32_def)

lemma single_precision_exact32: "single_precision exact32"
  by (simp add: single_precision_def exact32_def)

lemma fine_lists:
  "fine_a = [1 / 2 ^ 21, 1 - 1 / 2 ^ 21, 0,0,0,0,0,0,0,0,0,0,0,0,0,0,
     1,0,0,0,0,0,0,0,0,0,0,0,0,0,0,0, 1,0,0,0,0,0,0,0,0,0,0,0,0,0,0,0]"
  "fine_b = [0, 1, 0,0,0,0,0,0,0,0,0,0,0,0,0,0,
     1,0,0,0,0,0,0,0,0,0,0,0,0,0,0,0, 1,0,0,0,0,0,0,0,0,0,0,0,0,0,0,0]"
  by (simp_all add: fine_a_def fine_b_def eval_nat_numeral)

lemma fine_len: "length fine_a = 48" "length fine_b = 48"
  by (simp_all add: fine_a_def fine_b_def)

lemma fine_js:
  "jsHistogramDistance fine_a fine_b
     = Some ((1 / 2 ^ 21 + (1 / 2 ^ 21)\<^sup>2 / (2 - 1 / 2 ^ 21)) / 48)"
  unfolding fine_lists
  by (simp add: jsHistogramDistance_def chi_term_def js_index_def Let_def upt_rec [of 0]
      upt_rec [of "Suc _"] eval_nat_numeral)

lemma fine_graph:
  "sceneCutGraph (replicate 48 exact32) fine_a fine_b
     = ((1 / 2 ^ 21)\<^sup>2 / (1 / 2 ^ 21 + 1 / 10 ^ 10)
        + (1 / 2 ^ 21)\<^sup>2 / (2 - 1 / 2 ^ 21 + 1 / 10 ^ 10)) / 48"
proof -
  have "sceneCutGraph (replicate 48 exact32) fine_a fine_b
      = (\<Sum>i<48. (fine_a ! i - fine_b ! i)\<^sup>2 / (fine_a ! i + fine_b ! i + 1 / 10 ^ 10)) / 48"
    using sceneCutGraph_sum [of "replicate 48 exact32" fine_a fine_b] fine_len
    by (simp add: graph_cell_exact)
  also have "\<dots> = ((1 / 2 ^ 21)\<^sup>2 / (1 / 2 ^ 21 + 1 / 10 ^ 10)
        + (1 / 2 ^ 21)\<^sup>2 / (2 - 1 / 2 ^ 21 + 1 / 10 ^ 10)) / 48"
    unfolding fine_lists by (simp add: eval_nat_numeral lessThan_Suc)
  finally show ?thesis .
qed

lemma fine_margin:
  "(1 + 6 / 10 ^ 5) * (((1 / 2 ^ 21)\<^sup>2 / (1 / 2 ^ 21 + 1 / 10 ^ 10)
        + (1 / 2 ^ 21)\<^sup>2 / (2 - 1 / 2 ^ 21 + 1 / 10 ^ 10)) / 48)
     < (1 - 1 / 10 ^ 4) * ((1 / 2 ^ 21 + (1 / 2 ^ 21)\<^sup>2 / (2 - 1 / 2 ^ 21)) / 48 :: real)"
  by (simp add: field_simps)

text \<open>
  On \<open>fine_a\<close> and \<open>fine_b\<close> the graph misses the tolerance whatever the single-precision
  rounding: the epsilon takes \<open>2 \<sqdot> 10\<^sup>-\<^sup>4\<close> off the one term that matters, rounding gives
  back at most \<open>6 \<sqdot> 10\<^sup>-\<^sup>5\<close>.
\<close>

lemma fine_gap_survives_rounding:
  assumes "length errs = 48" "\<forall>e \<in> set errs. single_precision e"
  shows "\<not> \<bar>sceneCutGraph errs fine_a fine_b - the (jsHistogramDistance fine_a fine_b)\<bar>
           \<le> 1 / 10 ^ 4 * \<bar>the (jsHistogramDistance fine_a fine_b)\<bar>"
proof -
  let ?r = "(1 / 2 ^ 21 + (1 / 2 ^ 21)\<^sup>2 / (2 - 1 / 2 ^ 21)) / 48 :: real"
  have n: "\<forall>x \<in> set fine_a. 0 \<le> x" "\<forall>x \<in> set fine_b. 0 \<le> x"
    unfolding fine_lists by simp_all
  have "sceneCutGraph errs fine_a fine_b
      \<le> (1 + 6 / 10 ^ 5) * sceneCutGraph (replicate 48 exact32) fine_a fine_b"
    by (rule graph_rounding(2) [OF assms(1) fine_len n assms(2)])
  then have "sceneCutGraph errs fine_a fine_b < (1 - 1 / 10 ^ 4) * ?r"
    unfolding fine_graph using fine_margin by (rule le_less_trans)
  moreover have "0 < ?r" by (simp add: power2_eq_square)
  ultimately have "\<not> \<bar>sceneCutGraph errs fine_a fine_b - ?r\<bar> \<le> 1 / 10 ^ 4 * \<bar>?r\<bar>"
    by (simp add: abs_if field_simps split: if_splits)
  then show ?thesis by (simp only: fine_js option.sel simp_thms)
qed

text \<open>
  Claim C8 as stated fails: \<open>fine_a\<close> and \<open>fine_b\<close> are normalized histograms of
  equal length with non-negative entries. The reference distance is about
  \<open>2\<^sup>-\<^sup>2\<^sup>1 / 48\<close>; the graph divides the only term that matters by
  \<open>2\<^sup>-\<^sup>2\<^sup>1 + 10\<^sup>-\<^sup>1\<^sup>0\<close> instead of \<open>2\<^sup>-\<^sup>2\<^sup>1\<close> and ends \<open>2 \<sqdot> 10\<^sup>-\<^sup>4\<close> below the
  reference, without rounding as well as with the rounding \<open>up32\<close>.
\<close>

theorem dual_path_counterexample:
  "length fine_a = 48 \<and> length fine_b = 48
   \<and> list_all (\<lambda>x. 0 \<le> x) fine_a \<and> list_all (\<lambda>x. 0 \<le> x) fine_b
   \<and> sum_list (take 16 fine_a) = 1 \<and> sum_list (take 16 (drop 16 fine_a)) = 1
   \<and> sum_list (drop 32 fine_a) = 1
   \<and> sum_list (take 16 fine_b) = 1 \<and> sum_list (take 16 (drop 16 fine_b)) = 1
   \<and> sum_list (drop 32 fine_b) = 1
   \<and> jsHistogramDistance fine_a fine_b
       = Some ((1 / 2 ^ 21 + (1 / 2 ^ 21)\<^sup>2 / (2 - 1 / 2 ^ 21)) / 48)
   \<and> sceneCutGraph (replicate 48 exact32) fine_a fine_b
       = ((1 / 2 ^ 21)\<^sup>2 / (1 / 2 ^ 21 + 1 / 10 ^ 10)
          + (1 / 2 ^ 21)\<^sup>2 / (2 - 1 / 2 ^ 21 + 1 / 10 ^ 10)) / 48
   \<and> \<not> \<bar>sceneCutGraph (replicate 48 exact32) fine_a fine_b
          - the (jsHistogramDistance fine_a fine_b)\<bar>
          \<le> 1 / 10 ^ 4 * \<bar>the (jsHistogramDistance fine_a fine_b)\<bar>
   \<and> single_precision up32
   \<and> \<not> \<bar>sceneCutGraph (replicate 48 up32) fine_a fine_b
          - the (jsHistogramDistance fine_a fine_b)\<bar>
          \<le> 1 / 10 ^ 4 * \<bar>the (jsHistogramDistance fine_a fine_b)\<bar>"
proof -
  have norm: "list_all (\<lambda>x. 0 \<le> x) fine_a \<and> list_all (\<lambda>x. 0 \<le> x) fine_b
   \<and> sum_list (take 16 fine_a) = 1 \<and> sum_list (take 16 (drop 16 fine_a)) = 1
   \<and> sum_list (drop 32 fine_a) = 1
   \<and> sum_list (take 16 fine_b) = 1 \<and> sum_list (take 16 (drop 16 fine_b)) = 1
   \<and> sum_list (drop 32 fine_b) = 1"
    unfolding fine_lists by (simp add: eval_nat_numeral)
  have far0: "\<not> \<bar>sceneCutGraph (replicate 48 exact32) fine_a fine_b
          - the (jsHistogramDistance fine_a fine_b)\<bar>
          \<le> 1 / 10 ^ 4 * \<bar>the (jsHistogramDistance fine_a fine_b)\<bar>"
    by (rule fine_gap_survives_rounding) (simp_all add: single_precision_exact32)
  have far1: "\<not> \<bar>sceneCutGraph (replicate 48 up32) fine_a fine_b
          - the (jsHistogramDistance fine_a fine_b)\<bar>
          \<le> 1 / 10 ^ 4 * \<bar>the (jsHistogramDistance fine_a fine_b)\<bar>"
    by (rule fine_gap_survives_rounding) (simp_all add: single_precision_up32)
  show ?thesis
    using norm far0 far1 fine_js fine_graph single_precision_up32
    by (simp only: fine_len simp_thms)
qed

lemma half_lists:
  "half_a = [1 / 2, 1 / 2, 0,0,0,0,0,0,0,0,0,0,0,0,0,0,
     1,0,0,0,0,0,0,0,0,0,0,0,0,0,0,0, 1,0,0,0,0,0,0,0,0,0,0,0,0,0,0,0]"
  "half_b = [1, 0, 0,0,0,0,0,0,0,0,0,0,0,0,0,0,
     1,0,0,0,0,0,0,0,0,0,0,0,0,0,0,0, 1,0,0,0,0,0,0,0,0,0,0,0,0,0,0,0]"
  by (simp_all add: half_a_def half_b_def eval_nat_numeral)

subsection \<open>Histograms counted from frames\<close>

lemma counts_bump: "counts h \<Longrightarrow> counts (bump i h)"
proof -
  assume c: "counts h"
  show ?thesis
  proof (cases "i < length h")
    case False
    then have "h[i := h ! i + 1] = h" by (simp add: list_update_beyond)
    then show ?thesis using c by (simp add: bump_def)
  next
    case True
    then have "h ! i \<in> set h" by simp
    then obtain k :: nat where k: "h ! i = real k" using c unfolding counts_def by blast
    have "h ! i + 1 = real (Suc k)" using k by simp
    then have "\<forall>x \<in> insert (h ! i + 1) (set h). \<exists>k::nat. x = real k"
      using c unfolding counts_def by blast
    moreover have "set (bump i h) \<subseteq> insert (h ! i + 1) (set h)"
      unfolding bump_def by (rule set_update_subset_insert)
    ultimately show ?thesis unfolding counts_def by blast
  qed
qed

lemma length_bump [simp]: "length (bump i h) = length h"
  by (simp add: bump_def)

lemma count_pixels_counts: "counts h \<Longrightarrow> counts (count_pixels bins data h)"
  by (induction bins data h rule: count_pixels.induct) (simp_all add: counts_bump)

lemma length_count_pixels [simp]: "length (count_pixels bins data h) = length h"
  by (induction bins data h rule: count_pixels.induct) simp_all

lemma length_computeHistogram: "length (computeHistogram bins data) = bins * 3"
  by (simp add: computeHistogram_def Let_def)

lemma computeHistogram_grain:
  assumes "length data = 4 * n" "0 < n" "x \<in> set (computeHistogram bins data)"
  shows "\<exists>k::nat. x = real k / real n"
proof -
  have "counts (count_pixels bins data (replicate (bins * 3) 0))"
    by (rule count_pixels_counts) (auto simp: counts_def intro: exI [of _ 0])
  moreover from assms(3) obtain y where
    y: "y \<in> set (count_pixels bins data (replicate (bins * 3) 0))"
      "x = y / (real (length data) / 4)"
    by (auto simp: computeHistogram_def Let_def)
  ultimately obtain k :: nat where "y = real k" by (auto simp: counts_def)
  with y(2) assms(1) have "x = real k / real n" by simp
  then show ?thesis ..
qed

lemma grain_sum:
  fixes a b :: real
  assumes "a = real k / real n * (1 + da)" "b = real l / real m * (1 + db)"
    and "0 < n" "n \<le> 50000" "0 < m" "m \<le> 50000"
    and "\<bar>da\<bar> \<le> 1 / 10 ^ 6" "\<bar>db\<bar> \<le> 1 / 10 ^ 6"
  shows "0 \<le> a \<and> 0 \<le> b \<and> (a + b = 0 \<or> 1 / 10 ^ 5 \<le> a + b)"
proof -
  have grain: "x = 0 \<or> 1 / 10 ^ 5 \<le> x"
    if x: "x = real j / real p * (1 + d)" and p: "0 < p" "p \<le> 50000" and d: "\<bar>d\<bar> \<le> 1 / 10 ^ 6"
    for x d :: real and j p :: nat
  proof (cases j)
    case 0
    then show ?thesis using x by simp
  next
    case (Suc i)
    have "real p \<le> 50000" using p(2) by (metis of_nat_le_iff of_nat_numeral)
    then have "1 / 50000 \<le> 1 / real p" using p(1) by (simp add: field_simps)
    moreover have "1 / real p \<le> real j / real p"
      using Suc p(1) by (simp add: divide_right_mono)
    ultimately have g: "1 / 50000 \<le> real j / real p" by linarith
    have f: "1 - 1 / 10 ^ 6 \<le> 1 + d" by (rule factor_between(1) [OF d])
    have "1 / 50000 * (1 - 1 / 10 ^ 6) \<le> real j / real p * (1 + d)"
      by (rule mult_mono [OF g f]) simp_all
    then show ?thesis using x by simp
  qed
  have pos: "0 \<le> x"
    if x: "x = real j / real p * (1 + d)" and d: "\<bar>d\<bar> \<le> 1 / 10 ^ 6"
    for x d :: real and j p :: nat
  proof -
    have "1 - 1 / 10 ^ 6 \<le> 1 + d" by (rule factor_between(1) [OF d])
    moreover have "(0::real) \<le> 1 - 1 / 10 ^ 6" by simp
    ultimately have "0 \<le> 1 + d" by (rule order_trans [rotated])
    then show ?thesis using x by simp
  qed
  have a0: "0 \<le> a" by (rule pos [OF assms(1,7)])
  have b0: "0 \<le> b" by (rule pos [OF assms(2,8)])
  have ga: "a = 0 \<or> 1 / 10 ^ 5 \<le> a" by (rule grain [OF assms(1,3,4,7)])
  have gb: "b = 0 \<or> 1 / 10 ^ 5 \<le> b" by (rule grain [OF assms(2,5,6,8)])
  from a0 b0 ga gb have "a + b = 0 \<or> 1 / 10 ^ 5 \<le> a + b" by linarith
  with a0 b0 show ?thesis by simp
qed

lemma stored_cell:
  assumes "x \<in> set (map2 rounded c h)"
  shows "\<exists>d \<in> set c. \<exists>y \<in> set h. x = y * (1 + d)"
proof -
  from assms obtain d y where "(d, y) \<in> set (zip c h)" "x = rounded d y" by auto
  then show ?thesis by (auto simp: rounded_def dest: set_zip_leftD set_zip_rightD)
qed

lemma histo_black: "computeHistogram HISTOGRAM_BINS [0, 0, 0, 255] =
    [1,0,0,0,0,0,0,0,0,0,0,0,0,0,0,0, 1,0,0,0,0,0,0,0,0,0,0,0,0,0,0,0, 1,0,0,0,0,0,0,0,0,0,0,0,0,0,0,0]"
  by (simp add: computeHistogram_def HISTOGRAM_BINS_def bump_def bin_of_def eval_nat_numeral Let_def)

lemma histo_white: "computeHistogram HISTOGRAM_BINS [255, 255, 255, 255] =
    [0,0,0,0,0,0,0,0,0,0,0,0,0,0,0,1, 0,0,0,0,0,0,0,0,0,0,0,0,0,0,0,1, 0,0,0,0,0,0,0,0,0,0,0,0,0,0,0,1]"
proof -
  have b: "bin_of 16 255 = 15"
  proof -
    have "\<lfloor>255 / (256 / 16) :: real\<rfloor> = 15" by (rule floor_unique) simp_all
    then show ?thesis by (simp add: bin_of_def)
  qed
  show ?thesis
    by (simp add: computeHistogram_def HISTOGRAM_BINS_def b Let_def)
       (simp add: bump_def eval_nat_numeral)
qed

lemma analyzer_histograms_coarse:
  assumes "length d1 = 4 * n1" "0 < n1" "n1 \<le> 50000"
    and "length d2 = 4 * n2" "0 < n2" "n2 \<le> 50000"
    and "length c1 = 48" "length c2 = 48"
    and "\<forall>x \<in> set c1. \<bar>x\<bar> \<le> 1 / 10 ^ 6" "\<forall>x \<in> set c2. \<bar>x\<bar> \<le> 1 / 10 ^ 6"
  shows "length (map2 rounded c1 (computeHistogram HISTOGRAM_BINS d1)) = 48"
    and "length (map2 rounded c2 (computeHistogram HISTOGRAM_BINS d2)) = 48"
    and "\<forall>x \<in> set (map2 rounded c1 (computeHistogram HISTOGRAM_BINS d1)). 0 \<le> x"
    and "\<forall>x \<in> set (map2 rounded c2 (computeHistogram HISTOGRAM_BINS d2)). 0 \<le> x"
    and "\<forall>(a, b) \<in> set (zip (map2 rounded c1 (computeHistogram HISTOGRAM_BINS d1))
                           (map2 rounded c2 (computeHistogram HISTOGRAM_BINS d2))).
           a + b = 0 \<or> 1 / 10 ^ 5 \<le> a + b"
proof -
  let ?h1 = "map2 rounded c1 (computeHistogram HISTOGRAM_BINS d1)"
  let ?h2 = "map2 rounded c2 (computeHistogram HISTOGRAM_BINS d2)"
  have L: "length ?h1 = 48" "length ?h2 = 48"
    using assms(7,8) by (simp_all add: length_computeHistogram HISTOGRAM_BINS_def)
  show "length ?h1 = 48" "length ?h2 = 48" by (rule L)+
  have both: "0 \<le> a \<and> 0 \<le> b \<and> (a + b = 0 \<or> 1 / 10 ^ 5 \<le> a + b)"
    if ha: "a \<in> set ?h1" and hb: "b \<in> set ?h2" for a b
  proof -
    from stored_cell [OF ha] obtain da ya where
      a: "da \<in> set c1" "ya \<in> set (computeHistogram HISTOGRAM_BINS d1)" "a = ya * (1 + da)"
      by blast
    from stored_cell [OF hb] obtain db yb where
      b: "db \<in> set c2" "yb \<in> set (computeHistogram HISTOGRAM_BINS d2)" "b = yb * (1 + db)"
      by blast
    obtain k :: nat where k: "ya = real k / real n1"
      using computeHistogram_grain [OF assms(1,2) a(2)] by blast
    obtain l :: nat where l: "yb = real l / real n2"
      using computeHistogram_grain [OF assms(4,5) b(2)] by blast
    have ea: "a = real k / real n1 * (1 + da)" using a(3) k by simp
    have eb: "b = real l / real n2 * (1 + db)" using b(3) l by simp
    have da: "\<bar>da\<bar> \<le> 1 / 10 ^ 6" using assms(9) a(1) by blast
    have db: "\<bar>db\<bar> \<le> 1 / 10 ^ 6" using assms(10) b(1) by blast
    show ?thesis by (rule grain_sum [OF ea eb assms(2,3,5,6) da db])
  qed
  have pos: "0 < length ?h1" "0 < length ?h2" unfolding L by simp_all
  have first: "?h1 ! 0 \<in> set ?h1" "?h2 ! 0 \<in> set ?h2"
    by (rule nth_mem [OF pos(1)], rule nth_mem [OF pos(2)])
  show "\<forall>x \<in> set ?h1. 0 \<le> x"
  proof
    fix x assume x: "x \<in> set ?h1"
    from both [OF x first(2)] show "0 \<le> x" by (rule conjunct1)
  qed
  show "\<forall>x \<in> set ?h2. 0 \<le> x"
  proof
    fix y assume y: "y \<in> set ?h2"
    from both [OF first(1) y] show "0 \<le> y" by blast
  qed
  have "a + b = 0 \<or> 1 / 10 ^ 5 \<le> a + b" if z: "(a, b) \<in> set (zip ?h1 ?h2)" for a b
  proof -
    from z have "a \<in> set ?h1" by (rule set_zip_leftD)
    moreover from z have "b \<in> set ?h2" by (rule set_zip_rightD)
    ultimately show ?thesis using both by blast
  qed
  then show "\<forall>(a, b) \<in> set (zip ?h1 ?h2). a + b = 0 \<or> 1 / 10 ^ 5 \<le> a + b"
    by blast
qed

text \<open>
  Claim C8 (dual-path numerical equivalence), as amended. For two 48-bin histograms with
  non-negative entries in which every bin sum is 0 or at least \<open>10\<^sup>-\<^sup>5\<close>, the value that
  the graph computes in single precision differs from the value \<open>r\<close> of the synchronous
  reference by at most \<open>10\<^sup>-\<^sup>4\<close> times the reference value; the same holds against any
  \<open>r'\<close> within \<open>10\<^sup>-\<^sup>9 r\<close> of \<open>r\<close>, such as the reference value computed in double
  precision. This covers every pair of histograms that \<^verbatim>\<open>_computeHistogram\<close> counts,
  with 16 bins, from frames of at most 50000 pixels and stores in float32 cells (the
  factors \<open>c1\<close> and \<open>c2\<close>): the analyzer's canvas has 160 by 90 pixels.
\<close>

theorem dual_path_tolerance:
  "(length h1 = 48 \<and> length h2 = 48 \<and> length errs = 48
      \<and> (\<forall>x \<in> set h1. 0 \<le> x) \<and> (\<forall>x \<in> set h2. 0 \<le> x)
      \<and> (\<forall>(a, b) \<in> set (zip h1 h2). a + b = 0 \<or> 1 / 10 ^ 5 \<le> a + b)
      \<and> (\<forall>e \<in> set errs. single_precision e)
    \<longrightarrow> (\<exists>r. jsHistogramDistance h1 h2 = Some r
          \<and> \<bar>sceneCutGraph errs h1 h2 - r\<bar> \<le> 1 / 10 ^ 4 * \<bar>r\<bar>
          \<and> (\<forall>r'. \<bar>r' - r\<bar> \<le> r / 10 ^ 9 \<longrightarrow>
                \<bar>sceneCutGraph errs h1 h2 - r'\<bar> \<le> 1 / 10 ^ 4 * \<bar>r'\<bar>)))
   \<and> (length d1 = 4 * n1 \<and> 0 < n1 \<and> n1 \<le> 50000
      \<and> length d2 = 4 * n2 \<and> 0 < n2 \<and> n2 \<le> 50000
      \<and> length c1 = 48 \<and> length c2 = 48
      \<and> (\<forall>x \<in> set c1. \<bar>x\<bar> \<le> 1 / 10 ^ 6) \<and> (\<forall>x \<in> set c2. \<bar>x\<bar> \<le> 1 / 10 ^ 6)
      \<and> length errs = 48 \<and> (\<forall>e \<in> set errs. single_precision e)
    \<longrightarrow> (\<exists>r. jsHistogramDistance (map2 rounded c1 (computeHistogram HISTOGRAM_BINS d1))
                                  (map2 rounded c2 (computeHistogram HISTOGRAM_BINS d2)) = Some r
          \<and> \<bar>sceneCutGraph errs (map2 rounded c1 (computeHistogram HISTOGRAM_BINS d1))
                                 (map2 rounded c2 (computeHistogram HISTOGRAM_BINS d2)) - r\<bar>
              \<le> 1 / 10 ^ 4 * \<bar>r\<bar>
          \<and> (\<forall>r'. \<bar>r' - r\<bar> \<le> r / 10 ^ 9 \<longrightarrow>
                \<bar>sceneCutGraph errs (map2 rounded c1 (computeHistogram HISTOGRAM_BINS d1))
                                   (map2 rounded c2 (computeHistogram HISTOGRAM_BINS d2)) - r'\<bar>
                  \<le> 1 / 10 ^ 4 * \<bar>r'\<bar>)))"
proof (intro conjI impI)
  assume "length h1 = 48 \<and> length h2 = 48 \<and> length errs = 48
      \<and> (\<forall>x \<in> set h1. 0 \<le> x) \<and> (\<forall>x \<in> set h2. 0 \<le> x)
      \<and> (\<forall>(a, b) \<in> set (zip h1 h2). a + b = 0 \<or> 1 / 10 ^ 5 \<le> a + b)
      \<and> (\<forall>e \<in> set errs. single_precision e)"
  then show "\<exists>r. jsHistogramDistance h1 h2 = Some r
          \<and> \<bar>sceneCutGraph errs h1 h2 - r\<bar> \<le> 1 / 10 ^ 4 * \<bar>r\<bar>
          \<and> (\<forall>r'. \<bar>r' - r\<bar> \<le> r / 10 ^ 9 \<longrightarrow>
                \<bar>sceneCutGraph errs h1 h2 - r'\<bar> \<le> 1 / 10 ^ 4 * \<bar>r'\<bar>)"
    using dual_path_general [of h1 h2 errs] by blast
next
  let ?h1 = "map2 rounded c1 (computeHistogram HISTOGRAM_BINS d1)"
  let ?h2 = "map2 rounded c2 (computeHistogram HISTOGRAM_BINS d2)"
  assume "length d1 = 4 * n1 \<and> 0 < n1 \<and> n1 \<le> 50000
      \<and> length d2 = 4 * n2 \<and> 0 < n2 \<and> n2 \<le> 50000
      \<and> length c1 = 48 \<and> length c2 = 48
      \<and> (\<forall>x \<in> set c1. \<bar>x\<bar> \<le> 1 / 10 ^ 6) \<and> (\<forall>x \<in> set c2. \<bar>x\<bar> \<le> 1 / 10 ^ 6)
      \<and> length errs = 48 \<and> (\<forall>e \<in> set errs. single_precision e)"
  then have a: "length d1 = 4 * n1" "0 < n1" "n1 \<le> 50000"
    "length d2 = 4 * n2" "0 < n2" "n2 \<le> 50000" "length c1 = 48" "length c2 = 48"
    "\<forall>x \<in> set c1. \<bar>x\<bar> \<le> 1 / 10 ^ 6" "\<forall>x \<in> set c2. \<bar>x\<bar> \<le> 1 / 10 ^ 6"
    and e: "length errs = 48" "\<forall>e \<in> set errs. single_precision e" by simp_all
  note h = analyzer_histograms_coarse [OF a]
  show "\<exists>r. jsHistogramDistance ?h1 ?h2 = Some r
          \<and> \<bar>sceneCutGraph errs ?h1 ?h2 - r\<bar> \<le> 1 / 10 ^ 4 * \<bar>r\<bar>
          \<and> (\<forall>r'. \<bar>r' - r\<bar> \<le> r / 10 ^ 9 \<longrightarrow>
                \<bar>sceneCutGraph errs ?h1 ?h2 - r'\<bar> \<le> 1 / 10 ^ 4 * \<bar>r'\<bar>)"
    by (rule dual_path_general [OF h(1,2) e(1) h(3,4,5) e(2)])
qed

text \<open>
  The amended statement, with the rounding \<open>up32\<close>, on \<open>half_a\<close> and \<open>half_b\<close> (reference
  value 1/72) and on the histograms of a black and a white one-pixel frame (1/8).
\<close>

theorem dual_path_tolerance_witness:
  "single_precision up32
   \<and> jsHistogramDistance half_a half_b = Some (1 / 72)
   \<and> \<bar>sceneCutGraph (replicate 48 up32) half_a half_b - 1 / 72\<bar> \<le> 1 / 10 ^ 4 * \<bar>1 / 72\<bar>
   \<and> jsHistogramDistance
        (map2 rounded (replicate 48 0) (computeHistogram HISTOGRAM_BINS [0, 0, 0, 255]))
        (map2 rounded (replicate 48 0) (computeHistogram HISTOGRAM_BINS [255, 255, 255, 255]))
       = Some (1 / 8)
   \<and> \<bar>sceneCutGraph (replicate 48 up32)
        (map2 rounded (replicate 48 0) (computeHistogram HISTOGRAM_BINS [0, 0, 0, 255]))
        (map2 rounded (replicate 48 0) (computeHistogram HISTOGRAM_BINS [255, 255, 255, 255]))
       - 1 / 8\<bar> \<le> 1 / 10 ^ 4 * \<bar>1 / 8\<bar>"
proof -
  let ?k = "map2 rounded (replicate 48 0) (computeHistogram HISTOGRAM_BINS [0, 0, 0, 255])"
  let ?w = "map2 rounded (replicate 48 0) (computeHistogram HISTOGRAM_BINS [255, 255, 255, 255])"
  have len: "length half_a = 48" "length half_b = 48"
    by (simp_all add: half_a_def half_b_def)
  have nonneg: "\<forall>x \<in> set half_a. 0 \<le> x" "\<forall>x \<in> set half_b. 0 \<le> x"
    unfolding half_lists by simp_all
  have sums: "\<forall>(a, b) \<in> set (zip half_a half_b). a + b = 0 \<or> 1 / 10 ^ 5 \<le> a + b"
    unfolding half_lists by simp
  have errs: "length (replicate 48 up32) = 48" "\<forall>e \<in> set (replicate 48 up32). single_precision e"
    by (simp_all add: single_precision_up32)
  have js: "jsHistogramDistance half_a half_b = Some (1 / 72)"
    unfolding half_lists
    by (simp add: jsHistogramDistance_def chi_term_def js_index_def Let_def upt_rec [of 0]
        upt_rec [of "Suc _"] eval_nat_numeral)
  have px: "length [0, 0, 0, 255 :: nat] = 4 * 1 \<and> 0 < (1::nat) \<and> (1::nat) \<le> 50000
      \<and> length [255, 255, 255, 255 :: nat] = 4 * 1 \<and> 0 < (1::nat) \<and> (1::nat) \<le> 50000
      \<and> length (replicate 48 (0::real)) = 48 \<and> length (replicate 48 (0::real)) = 48
      \<and> (\<forall>x \<in> set (replicate 48 (0::real)). \<bar>x\<bar> \<le> 1 / 10 ^ 6)
      \<and> (\<forall>x \<in> set (replicate 48 (0::real)). \<bar>x\<bar> \<le> 1 / 10 ^ 6)"
    by simp
  have k: "?k = computeHistogram HISTOGRAM_BINS [0, 0, 0, 255]"
    unfolding histo_black by (simp add: rounded_def eval_nat_numeral)
  have w: "?w = computeHistogram HISTOGRAM_BINS [255, 255, 255, 255]"
    unfolding histo_white by (simp add: rounded_def eval_nat_numeral)
  have js2: "jsHistogramDistance ?k ?w = Some (1 / 8)"
    unfolding k w unfolding histo_black histo_white
    by (simp add: jsHistogramDistance_def chi_term_def js_index_def Let_def upt_rec [of 0]
        upt_rec [of "Suc _"] eval_nat_numeral)
  note t = dual_path_tolerance [of half_a half_b "replicate 48 up32"
      "[0, 0, 0, 255]" 1 "[255, 255, 255, 255]" 1 "replicate 48 0" "replicate 48 0"]
  from t len nonneg sums errs obtain r where
    r: "jsHistogramDistance half_a half_b = Some r"
      "\<bar>sceneCutGraph (replicate 48 up32) half_a half_b - r\<bar> \<le> 1 / 10 ^ 4 * \<bar>r\<bar>" by blast
  from t px errs obtain q where
    q: "jsHistogramDistance ?k ?w = Some q"
      "\<bar>sceneCutGraph (replicate 48 up32) ?k ?w - q\<bar> \<le> 1 / 10 ^ 4 * \<bar>q\<bar>"
    by blast
  from r(1) js have "r = 1 / 72" by simp
  moreover from q(1) js2 have "q = 1 / 8" by simp
  ultimately show ?thesis using r(2) q(2) js js2 single_precision_up32 by (simp only: simp_thms)
qed

subsection \<open>The scene-cut threshold\<close>

lemma sum_list_bump: "sum_list (bump i h) \<le> sum_list h + 1"
proof (cases "i < length h")
  case False
  then have "h[i := h ! i + 1] = h" by (simp add: list_update_beyond)
  then show ?thesis by (simp add: bump_def)
next
  case True
  then have "sum_list (h[i := h ! i + 1]) = sum_list h + 1"
  proof (induction h arbitrary: i)
    case Nil
    then show ?case by simp
  next
    case (Cons x xs)
    then show ?case by (cases i) simp_all
  qed
  then show ?thesis by (simp add: bump_def)
qed

lemma sum_list_count_pixels:
  "sum_list (count_pixels bins data h) \<le> sum_list h + 3 * real ((length data + 3) div 4)"
proof (induction bins data h rule: count_pixels.induct)
  case (1 bins r g b a data histogram)
  let ?h = "bump (bins * 2 + bin_of bins b) (bump (bins + bin_of bins g) (bump (bin_of bins r) histogram))"
  have "sum_list ?h \<le> sum_list histogram + 3"
    using sum_list_bump [of "bins * 2 + bin_of bins b" "bump (bins + bin_of bins g) (bump (bin_of bins r) histogram)"]
      sum_list_bump [of "bins + bin_of bins g" "bump (bin_of bins r) histogram"]
      sum_list_bump [of "bin_of bins r" histogram] by linarith
  moreover have "(length (r # g # b # a # data) + 3) div 4 = Suc ((length data + 3) div 4)"
    by simp
  then have "real ((length (r # g # b # a # data) + 3) div 4) = real ((length data + 3) div 4) + 1"
    by (simp only: of_nat_Suc)
  ultimately show ?case using 1 by simp
next
  case (2 bins r g b histogram)
  show ?case
    using sum_list_bump [of "bins * 2 + bin_of bins b" "bump (bins + bin_of bins g) (bump (bin_of bins r) histogram)"]
      sum_list_bump [of "bins + bin_of bins g" "bump (bin_of bins r) histogram"]
      sum_list_bump [of "bin_of bins r" histogram] by simp
next
  case (3 bins r g histogram)
  show ?case
    using sum_list_bump [of "bins + bin_of bins g" "bump (bin_of bins r) histogram"]
      sum_list_bump [of "bin_of bins r" histogram] by simp
next
  case (4 bins r histogram)
  show ?case using sum_list_bump [of "bin_of bins r" histogram] by simp
next
  case (5 bins histogram)
  show ?case by simp
qed

lemma sum_list_divide: "sum_list (map (\<lambda>x. x / c) xs) = sum_list xs / (c::real)"
  by (induction xs) (simp_all add: add_divide_distrib)

lemma sum_list_computeHistogram:
  assumes "length data mod 4 = 0" "0 < length data"
  shows "sum_list (computeHistogram bins data) \<le> 3"
proof -
  obtain n where n: "length data = 4 * n" using assms(1) by (auto simp: mod_eq_0_iff_dvd)
  with assms(2) have pos: "0 < n" by simp
  have "(length data + 3) div 4 = n" using n by simp
  then have "sum_list (count_pixels bins data (replicate (bins * 3) 0)) \<le> 3 * real n"
    using sum_list_count_pixels [of bins data "replicate (bins * 3) 0"] by (simp add: sum_list_replicate)
  moreover have "real (length data) / 4 = real n" using n by simp
  ultimately show ?thesis using pos
    by (simp add: computeHistogram_def Let_def sum_list_divide field_simps)
qed

lemma bin_term_le_sum:
  assumes "0 \<le> h1 ! i" "0 \<le> h2 ! i"
  shows "bin_term h1 h2 i \<le> h1 ! i + h2 ! i"
proof (cases "h1 ! i + h2 ! i > 0")
  case False
  then show ?thesis using assms by (simp add: bin_term_def)
next
  case True
  define a where "a = h1 ! i"
  define b where "b = h2 ! i"
  have ab: "0 \<le> a" "0 \<le> b" "0 < a + b" using assms True by (simp_all add: a_def b_def)
  have "(a - b)\<^sup>2 \<le> (a + b)\<^sup>2"
  proof -
    have "(a + b)\<^sup>2 - (a - b)\<^sup>2 = 4 * a * b" by (simp add: power2_eq_square algebra_simps)
    moreover have "0 \<le> 4 * a * b" using ab by simp
    ultimately show ?thesis by linarith
  qed
  then have "(a - b)\<^sup>2 / (a + b) \<le> (a + b)\<^sup>2 / (a + b)"
    using ab(3) by (simp add: divide_right_mono)
  also have "\<dots> = a + b" using ab(3) by (simp add: power2_eq_square)
  finally show ?thesis using True by (simp add: bin_term_def a_def b_def)
qed

lemma distance_at_most_eighth:
  assumes "length h1 = 48" "length h2 = 48"
    and "\<forall>x \<in> set h1. 0 \<le> x" "\<forall>x \<in> set h2. 0 \<le> x"
    and "sum_list h1 \<le> 3" "sum_list h2 \<le> 3"
  shows "\<exists>r. histogramDiff h1 h2 = Some r \<and> r \<le> 1 / 8"
proof -
  have ne: "h1 \<noteq> []" using assms(1) by auto
  have "(\<Sum>i<48. bin_term h1 h2 i) \<le> (\<Sum>i<48. h1 ! i + h2 ! i)"
  proof (rule sum_mono)
    fix i assume "i \<in> {..<48::nat}"
    then have "0 \<le> h1 ! i" "0 \<le> h2 ! i" using assms(1-4) by auto
    then show "bin_term h1 h2 i \<le> h1 ! i + h2 ! i" by (rule bin_term_le_sum)
  qed
  also have "\<dots> = sum_list h1 + sum_list h2"
    using assms(1,2) by (simp add: sum_list_nth_sum sum.distrib)
  also have "\<dots> \<le> 6" using assms(5,6) by simp
  finally have b: "(\<Sum>i<48. bin_term h1 h2 i) / 48 \<le> 1 / 8" by simp
  have "histogramDiff h1 h2 = Some ((\<Sum>i<48. bin_term h1 h2 i) / 48)"
    using histogramDiff_sum [OF ne] assms(1,2) by simp
  with b show ?thesis by blast
qed

lemma computeHistogram_nonneg:
  assumes "length data mod 4 = 0" "0 < length data"
  shows "\<forall>x \<in> set (computeHistogram bins data). 0 \<le> x"
proof
  fix x assume x: "x \<in> set (computeHistogram bins data)"
  obtain n where n: "length data = 4 * n" using assms(1) by (auto simp: mod_eq_0_iff_dvd)
  with assms(2) have "0 < n" by simp
  from computeHistogram_grain [OF n this x] show "0 \<le> x" by auto
qed

lemma analyzeCaptured_cut_free:
  assumes "cut_free fa" "length data mod 4 = 0" "0 < length data"
  shows "\<not> isSceneCut (fst (analyzeCaptured now data fa))
       \<and> cut_free (snd (analyzeCaptured now data fa))"
proof -
  let ?h = "computeHistogram (BINS fa) data"
  have bins: "BINS fa = 16" and thr: "DIFF_THRESHOLD fa = 0.35" and none: "sceneCuts fa = []"
    using assms(1) by (simp_all add: cut_free_def HISTOGRAM_BINS_def SCENE_CUT_DIFF_THRESHOLD_def)
  have h: "length ?h = 48" "\<forall>x \<in> set ?h. 0 \<le> x" "sum_list ?h \<le> 3"
    using computeHistogram_nonneg [OF assms(2,3)] sum_list_computeHistogram [OF assms(2,3)]
    by (simp_all add: length_computeHistogram bins)
  have nocut: "\<not> (case previousHistogram fa of
                   None \<Rightarrow> False
                 | Some prev \<Rightarrow>
                     (case histogramDiff prev ?h of
                        None \<Rightarrow> False
                      | Some diff \<Rightarrow> diff > DIFF_THRESHOLD fa))"
  proof (cases "previousHistogram fa")
    case None
    then show ?thesis by simp
  next
    case (Some prev)
    with assms(1) have p: "length prev = 48" "\<forall>x \<in> set prev. 0 \<le> x" "sum_list prev \<le> 3"
      by (simp_all add: cut_free_def)
    from distance_at_most_eighth [OF p(1) h(1) p(2) h(2) p(3) h(3)]
    obtain r where "histogramDiff prev ?h = Some r" "r \<le> 1 / 8" by blast
    then show ?thesis using Some thr by simp
  qed
  then have cut: "\<not> isSceneCut (fst (analyzeCaptured now data fa))"
    by (simp add: analyzeCaptured_def Let_def)
  have s: "sceneCuts (snd (analyzeCaptured now data fa)) = []"
    "previousHistogram (snd (analyzeCaptured now data fa)) = Some ?h"
    "BINS (snd (analyzeCaptured now data fa)) = BINS fa"
    "DIFF_THRESHOLD (snd (analyzeCaptured now data fa)) = DIFF_THRESHOLD fa"
    using nocut none by (simp_all add: analyzeCaptured_def Let_def)
  have "cut_free (snd (analyzeCaptured now data fa))"
    unfolding cut_free_def s using assms(1) h by (simp add: cut_free_def)
  with cut show ?thesis ..
qed

lemma analyzeFrame_cut_free:
  assumes "cut_free fa" "whole_frame v"
  shows "cut_free (snd (analyzeFrame now v fa))
     \<and> (case fst (analyzeFrame now v fa) of None \<Rightarrow> True | Some r \<Rightarrow> \<not> isSceneCut r)"
  using assms analyzeCaptured_cut_free [of fa _ now]
  by (auto simp: analyzeFrame_def whole_frame_def Let_def split: option.splits sum.splits)

lemma analyze_run_cut_free:
  assumes "cut_free fa" "\<forall>(t, v) \<in> set samples. whole_frame v"
  shows "cut_free (analyze_run fa samples)"
  using assms
proof (induction samples arbitrary: fa)
  case Nil
  then show ?case by simp
next
  case (Cons f samples)
  obtain t v where f: "f = (t, v)" by (cases f)
  have "cut_free (snd (analyzeFrame t v fa))"
    using analyzeFrame_cut_free [of fa v t] Cons.prems f by simp
  then show ?case using Cons.IH Cons.prems(2) f by simp
qed

text \<open>
  With the constants of the repository no scene cut is ever recorded. Each colour channel
  of a histogram sums to at most 1, every bin term is at most the bin sum, so the
  distance between two histograms counted from frames is at most \<open>6 / 48 = 1 / 8\<close>, below
  the threshold 0.35: along every run from a fresh analyzer the cut queue stays empty and
  \<^verbatim>\<open>getMetrics\<close> reports the cut rate 0.
\<close>

theorem scene_cut_never_detected:
  "((\<forall>(t, v) \<in> set samples. whole_frame v) \<longrightarrow>
      sceneCuts (analyze_run newFrameAnalyzer samples) = []
      \<and> metricsCutRate (getMetrics (analyze_run newFrameAnalyzer samples)) = 0)
   \<and> (length d1 mod 4 = 0 \<and> 0 < length d1 \<and> length d2 mod 4 = 0 \<and> 0 < length d2 \<longrightarrow>
        (\<exists>r. histogramDiff (computeHistogram HISTOGRAM_BINS d1) (computeHistogram HISTOGRAM_BINS d2)
               = Some r \<and> r \<le> 1 / 8 \<and> r < SCENE_CUT_DIFF_THRESHOLD))"
proof (intro conjI impI)
  assume a: "\<forall>(t, v) \<in> set samples. whole_frame v"
  have "cut_free newFrameAnalyzer" by (simp add: cut_free_def newFrameAnalyzer_def)
  then have "cut_free (analyze_run newFrameAnalyzer samples)"
    using a by (rule analyze_run_cut_free)
  then show "sceneCuts (analyze_run newFrameAnalyzer samples) = []"
    by (simp add: cut_free_def)
  then show "metricsCutRate (getMetrics (analyze_run newFrameAnalyzer samples)) = 0"
    by (simp add: getMetrics_def)
next
  assume "length d1 mod 4 = 0 \<and> 0 < length d1 \<and> length d2 mod 4 = 0 \<and> 0 < length d2"
  then have d: "length d1 mod 4 = 0" "0 < length d1" "length d2 mod 4 = 0" "0 < length d2"
    by simp_all
  have "\<exists>r. histogramDiff (computeHistogram HISTOGRAM_BINS d1) (computeHistogram HISTOGRAM_BINS d2)
               = Some r \<and> r \<le> 1 / 8"
  proof (rule distance_at_most_eighth)
    show "length (computeHistogram HISTOGRAM_BINS d1) = 48"
      "length (computeHistogram HISTOGRAM_BINS d2) = 48"
      by (simp_all add: length_computeHistogram HISTOGRAM_BINS_def)
    show "\<forall>x \<in> set (computeHistogram HISTOGRAM_BINS d1). 0 \<le> x"
      by (rule computeHistogram_nonneg [OF d(1,2)])
    show "\<forall>x \<in> set (computeHistogram HISTOGRAM_BINS d2). 0 \<le> x"
      by (rule computeHistogram_nonneg [OF d(3,4)])
    show "sum_list (computeHistogram HISTOGRAM_BINS d1) \<le> 3"
      by (rule sum_list_computeHistogram [OF d(1,2)])
    show "sum_list (computeHistogram HISTOGRAM_BINS d2) \<le> 3"
      by (rule sum_list_computeHistogram [OF d(3,4)])
  qed
  then show "\<exists>r. histogramDiff (computeHistogram HISTOGRAM_BINS d1) (computeHistogram HISTOGRAM_BINS d2)
               = Some r \<and> r \<le> 1 / 8 \<and> r < SCENE_CUT_DIFF_THRESHOLD"
    by (auto simp: SCENE_CUT_DIFF_THRESHOLD_def)
qed

text \<open>
  A black frame followed by a white one: the distance reaches 1/8 and no cut is recorded.
\<close>

theorem scene_cut_never_detected_witness:
  "whole_frame (Some playing) \<and> whole_frame (Some white_video)
   \<and> sceneCuts (analyze_run newFrameAnalyzer [(0, Some playing), (500, Some white_video)]) = []
   \<and> metricsCutRate (getMetrics
        (analyze_run newFrameAnalyzer [(0, Some playing), (500, Some white_video)])) = 0
   \<and> histogramDiff (computeHistogram HISTOGRAM_BINS [0, 0, 0, 255])
        (computeHistogram HISTOGRAM_BINS [255, 255, 255, 255]) = Some (1 / 8)"
proof -
  have w: "whole_frame (Some playing)" "whole_frame (Some white_video)"
    by (simp_all add: whole_frame_def playing_def white_video_def)
  then have all: "\<forall>(t, v) \<in> set [(0, Some playing), (500, Some white_video)]. whole_frame v"
    by simp
  have d: "histogramDiff (computeHistogram HISTOGRAM_BINS [0, 0, 0, 255])
        (computeHistogram HISTOGRAM_BINS [255, 255, 255, 255]) = Some (1 / 8)"
    unfolding histo_black histo_white
    by (simp add: histogramDiff_def chi_term_def js_index_def Let_def upt_rec [of 0]
        upt_rec [of "Suc _"] eval_nat_numeral)
  from scene_cut_never_detected
    [of "[(0, Some playing), (500, Some white_video)]" "[0, 0, 0, 255]" "[255, 255, 255, 255]"] all
  have "sceneCuts (analyze_run newFrameAnalyzer [(0, Some playing), (500, Some white_video)]) = []
   \<and> metricsCutRate (getMetrics
        (analyze_run newFrameAnalyzer [(0, Some playing), (500, Some white_video)])) = 0"
    by blast
  with w d show ?thesis by (simp only: simp_thms)
qed

section \<open>Properties of the score aggregator\<close>

lemma rawScore_update [simp]: "rawScore t (updateDopamineScore now d) = rawScore t d"
  by (simp add: rawScore_def updateDopamineScore_def sceneCutScore_def scrollScore_def
      fastScrolls_def timeScore_def contentChangeScore_def videoScore_def activeVideos_def)

text \<open>
  Claim C2 (exact smoothing step values), as amended. From score 0 with sensitivity 0.5,
  an update whose raw score is 100 yields the score 15, and a second update with the
  same input yields 27.75 (0.15 * 100 + 0.85 * 15).
\<close>

theorem smoothing_steps:
  assumes "dopamineScore d = 0" and "sensitivity d = 0.5" and "rawScore now d = 100"
  shows "dopamineScore (updateDopamineScore now d) = 15
         \<and> dopamineScore (updateDopamineScore now (updateDopamineScore now d)) = 27.75"
proof -
  have one: "dopamineScore (updateDopamineScore now d) = 15"
    using assms by (simp add: updateDopamineScore_def alpha_def)
  have "dopamineScore (updateDopamineScore now (updateDopamineScore now d))
          = alpha * min (rawScore now d) 100 + (1 - alpha) * 15"
    using one by (simp add: updateDopamineScore_def [of now "updateDopamineScore now d"])
  then show ?thesis using one assms(3) by (simp add: alpha_def)
qed

lemma saturated_fields:
  "dopamineScore saturated = 0" "sensitivity saturated = 0.5" "rawScore 0 saturated = 100"
proof -
  show "dopamineScore saturated = 0" and s: "sensitivity saturated = 0.5"
    by (simp_all add: saturated_def newDetector_def)
  have a: "sceneCutScore saturated = 100"
    by (simp add: sceneCutScore_def saturated_def getMetrics_def newFrameAnalyzer_def
        average_def HIGH_CUT_RATE_def SCENE_CUT_MOTION_THRESHOLD_def SCENE_CUT_WINDOW_def)
  have b: "scrollScore saturated = 100"
    by (simp add: scrollScore_def fastScrolls_def saturated_def SCROLL_defs)
  have c: "timeScore 0 saturated = 0"
    by (simp add: timeScore_def saturated_def newDetector_def)
  have e: "contentChangeScore saturated = 100"
    by (simp add: contentChangeScore_def saturated_def SCROLL_defs)
  have f: "videoScore saturated = 100"
    by (simp add: videoScore_def activeVideos_def saturated_def playing_def)
  show "rawScore 0 saturated = 100"
    by (simp add: rawScore_def a b c e f s SCORE_WEIGHTS_defs)
qed

text \<open>
  Claim C2 as stated fails on its second value: on the detector \<open>saturated\<close> the raw
  score is 100 and the first update yields 15, but the second update yields 27.75, not
  25.5.
\<close>

theorem smoothing_second_step_counterexample:
  "dopamineScore saturated = 0 \<and> sensitivity saturated = 0.5 \<and> rawScore 0 saturated = 100
   \<and> dopamineScore (updateDopamineScore 0 saturated) = 15
   \<and> dopamineScore (updateDopamineScore 0 (updateDopamineScore 0 saturated)) = 27.75
   \<and> dopamineScore (updateDopamineScore 0 (updateDopamineScore 0 saturated)) \<noteq> 25.5"
proof -
  have one: "dopamineScore (updateDopamineScore 0 saturated) = 15"
    by (simp add: updateDopamineScore_def alpha_def saturated_fields)
  have "dopamineScore (updateDopamineScore 0 (updateDopamineScore 0 saturated))
          = alpha * min (rawScore 0 saturated) 100 + (1 - alpha) * 15"
    using one by (simp add: updateDopamineScore_def [of 0 "updateDopamineScore 0 saturated"])
  then have two: "dopamineScore (updateDopamineScore 0 (updateDopamineScore 0 saturated)) = 27.75"
    by (simp add: saturated_fields alpha_def)
  show ?thesis unfolding two using one by (simp add: saturated_fields)
qed

text \<open>
The amended statement on the detector \<open>saturated\<close>.
\<close>

theorem smoothing_steps_witness:
  "dopamineScore (updateDopamineScore 0 saturated) = 15
   \<and> dopamineScore (updateDopamineScore 0 (updateDopamineScore 0 saturated)) = 27.75"
  using smoothing_steps [of saturated 0] by (simp add: saturated_fields)

lemma signals_ok_score [simp]: "signals_ok now (d\<lparr> dopamineScore := x \<rparr>) = signals_ok now d"
  by (simp add: signals_ok_def)

lemma sceneCutScore_nonneg:
  assumes "0 \<le> metricsCutRate (getMetrics (frameAnalyzer d))"
    and "0 \<le> metricsAvgMotion (getMetrics (frameAnalyzer d))"
  shows "0 \<le> sceneCutScore d"
proof -
  have "0 \<le> min (metricsCutRate (getMetrics (frameAnalyzer d)) / HIGH_CUT_RATE) 1"
    using assms(1) by (simp add: HIGH_CUT_RATE_def)
  moreover have "0 \<le> min (metricsAvgMotion (getMetrics (frameAnalyzer d)) / SCENE_CUT_MOTION_THRESHOLD) 1"
    using assms(2) by (simp add: SCENE_CUT_MOTION_THRESHOLD_def)
  ultimately show ?thesis by (simp add: sceneCutScore_def Let_def)
qed

lemma scrollScore_nonneg: "0 \<le> scrollScore d"
  by (simp add: scrollScore_def RAPID_SCROLL_COUNT_def)

lemma contentChangeScore_nonneg: "0 \<le> contentChangeScore d"
  by (simp add: contentChangeScore_def INFINITE_SCROLL_THRESHOLD_def)

lemma videoScore_nonneg: "0 \<le> videoScore d"
  by (simp add: videoScore_def)

lemma timeScore_nonneg:
  assumes "startTime d \<le> now"
  shows "0 \<le> timeScore now d"
proof -
  define x where "x = 1 + real_of_int (now - startTime d) / 1000 / 60"
  have "1 \<le> x" using assms by (simp add: x_def)
  then have "0 \<le> log 10 x" using zero_le_log_cancel_iff [of 10 x] by simp
  then show ?thesis unfolding timeScore_def Let_def x_def by simp
qed

lemma rawScore_nonneg:
  assumes "signals_ok now d"
  shows "0 \<le> rawScore now d"
proof -
  have m: "0 \<le> 0.5 + sensitivity d * 1.5" using assms by (simp add: signals_ok_def)
  have "0 \<le> sceneCutScore d * W_SCENE_CUTS + scrollScore d * W_SCROLL_VELOCITY
      + timeScore now d * W_TIME_ON_PAGE + contentChangeScore d * W_CONTENT_CHANGES
      + videoScore d * W_VIDEO_COUNT"
    using sceneCutScore_nonneg [of d] scrollScore_nonneg [of d] timeScore_nonneg [of d now]
      contentChangeScore_nonneg [of d] videoScore_nonneg [of d] assms
    by (simp add: signals_ok_def SCORE_WEIGHTS_defs)
  then show ?thesis unfolding rawScore_def using m by (intro mult_nonneg_nonneg)
qed

lemma update_upper:
  assumes "dopamineScore d \<le> 100"
  shows "dopamineScore (updateDopamineScore now d) \<le> 100"
proof -
  have "min (rawScore now d) 100 \<le> 100" by simp
  with assms show ?thesis by (simp add: updateDopamineScore_def alpha_def)
qed

lemma update_lower:
  assumes "0 \<le> dopamineScore d" "signals_ok now d"
  shows "0 \<le> dopamineScore (updateDopamineScore now d)"
proof -
  have "0 \<le> min (rawScore now d) 100" using rawScore_nonneg [OF assms(2)] by simp
  with assms(1) show ?thesis by (simp add: updateDopamineScore_def alpha_def)
qed

lemma score_run_bounded:
  assumes "0 \<le> score" "score \<le> 100" "\<forall>(now, d) \<in> set ticks. signals_ok now d"
  shows "\<forall>x \<in> set (score_run score ticks). 0 \<le> x \<and> x \<le> 100"
  using assms
proof (induction ticks arbitrary: score)
  case Nil
  then show ?case by simp
next
  case (Cons tick ticks)
  obtain now d where tick: "tick = (now, d)" by (cases tick)
  let ?d = "d\<lparr> dopamineScore := score \<rparr>"
  let ?x = "dopamineScore (updateDopamineScore now ?d)"
  have ok: "signals_ok now ?d" using Cons.prems(3) tick by simp
  have lo: "0 \<le> ?x" using update_lower [of ?d now] Cons.prems(1) ok by simp
  have hi: "?x \<le> 100" using update_upper [of ?d now] Cons.prems(2) by simp
  have "\<forall>x \<in> set (score_run ?x ticks). 0 \<le> x \<and> x \<le> 100"
    using Cons.IH [OF lo hi] Cons.prems(3) by simp
  with lo hi show ?case by (simp add: tick Let_def)
qed

text \<open>
  Claim C4 (score boundedness). If the score is within [0, 100] and the input signals
  are in range, the score after \<^verbatim>\<open>_updateDopamineScore\<close> is within [0, 100]; hence
  along every sequence of updates with in-range signals, started from a score within
  [0, 100], every score is within [0, 100].
\<close>

theorem score_bounded:
  "(0 \<le> dopamineScore d \<and> dopamineScore d \<le> 100 \<and> signals_ok now d \<longrightarrow>
      0 \<le> dopamineScore (updateDopamineScore now d)
      \<and> dopamineScore (updateDopamineScore now d) \<le> 100)
   \<and> (0 \<le> score \<and> score \<le> 100 \<and> (\<forall>(t, s) \<in> set ticks. signals_ok t s) \<longrightarrow>
        (\<forall>x \<in> set (score_run score ticks). 0 \<le> x \<and> x \<le> 100))"
  using update_lower [of d now] update_upper [of d now] score_run_bounded [of score ticks]
  by blast

text \<open>
  Two updates, at 20000 ms and 21000 ms, of the detector that saw one scroll event.
\<close>

theorem score_bounded_witness:
  "signals_ok 20000 stale_scroll
   \<and> 0 \<le> dopamineScore (updateDopamineScore 20000 stale_scroll)
   \<and> dopamineScore (updateDopamineScore 20000 stale_scroll) \<le> 100
   \<and> list_all (\<lambda>x. 0 \<le> x \<and> x \<le> 100)
        (score_run 0 [(20000, stale_scroll), (21000, stale_scroll)])"
proof -
  have f: "frameAnalyzer stale_scroll = newFrameAnalyzer" "startTime stale_scroll = 0"
    "sensitivity stale_scroll = 0.5" "dopamineScore stale_scroll = 0"
    by (simp_all add: stale_scroll_def scrollHandler_def newDetector_def Let_def)
  have m: "metricsCutRate (getMetrics newFrameAnalyzer) = 0"
    "metricsAvgMotion (getMetrics newFrameAnalyzer) = 0"
    by (simp_all add: getMetrics_def newFrameAnalyzer_def average_def)
  have ok: "signals_ok 20000 stale_scroll" "signals_ok 21000 stale_scroll"
    by (simp_all add: signals_ok_def f m)
  then have all: "\<forall>(t, s) \<in> set [(20000, stale_scroll), (21000, stale_scroll)]. signals_ok t s"
    by simp
  from score_bounded [of stale_scroll 20000 0 "[(20000, stale_scroll), (21000, stale_scroll)]"]
    ok all f(4)
  show ?thesis unfolding list_all_iff by simp
qed

subsection \<open>Trailing windows\<close>

lemma stale_scroll_events:
  "scrollEvents stale_scroll = [\<lparr> time = 1000, velocity = 5000, dy = 5000 \<rparr>]"
  by (simp add: stale_scroll_def scrollHandler_def newDetector_def RAPID_SCROLL_WINDOW_def Let_def)

text \<open>
  Claim C3 (windowed eviction at every read) against the code. Events are evicted only
  when a new event of their kind is taken in. The scroll event of \<open>stale_scroll\<close> is
  19000 ms old at a score update at 20000 ms, more than the 10000 ms window, and the
  update still counts it (one fast scroll, scroll score 20). A height change recorded at
  500 ms is still counted after a poll at 20000 ms that sees no change. A cut recorded at
  time 0 survives a sampling tick at 3001 ms on a paused video, and \<^verbatim>\<open>getMetrics\<close>
  still reports a cut rate of 10/3 for it.
\<close>

theorem stale_events_still_counted:
  "scrollEvents stale_scroll = [\<lparr> time = 1000, velocity = 5000, dy = 5000 \<rparr>]
   \<and> RAPID_SCROLL_WINDOW < 20000 - 1000
   \<and> scrollEvents (scoreTick 20000 stale_scroll) = scrollEvents stale_scroll
   \<and> fastScrolls stale_scroll = 1
   \<and> scrollScore stale_scroll = 20
   \<and> domHeightChanges (domPoll 20000 3000 (domPoll 500 3000 (newDetector 0 0 2000))) = [500]
   \<and> contentChangeScore (domPoll 20000 3000 (domPoll 500 3000 (newDetector 0 0 2000))) = 5
   \<and> CUT_WINDOW newFrameAnalyzer = 3000
   \<and> snd (analyzeFrame 3001 (Some paused_video) (newFrameAnalyzer\<lparr> sceneCuts := [0] \<rparr>))
        = newFrameAnalyzer\<lparr> sceneCuts := [0] \<rparr>
   \<and> metricsCutRate (getMetrics (newFrameAnalyzer\<lparr> sceneCuts := [0] \<rparr>)) = 10 / 3"
proof -
  have a: "scrollEvents (scoreTick 20000 stale_scroll) = scrollEvents stale_scroll"
    by (simp add: scoreTick_def updateDopamineScore_def)
  have b: "fastScrolls stale_scroll = 1"
    by (simp add: fastScrolls_def stale_scroll_events VELOCITY_THRESHOLD_def)
  have c: "scrollScore stale_scroll = 20"
    by (simp add: scrollScore_def b RAPID_SCROLL_COUNT_def)
  have d: "domHeightChanges (domPoll 20000 3000 (domPoll 500 3000 (newDetector 0 0 2000))) = [500]"
    by (simp add: domPoll_def newDetector_def RAPID_SCROLL_WINDOW_def)
  have e: "contentChangeScore (domPoll 20000 3000 (domPoll 500 3000 (newDetector 0 0 2000))) = 5"
    by (simp add: contentChangeScore_def d INFINITE_SCROLL_THRESHOLD_def)
  have f: "snd (analyzeFrame 3001 (Some paused_video) (newFrameAnalyzer\<lparr> sceneCuts := [0] \<rparr>))
        = newFrameAnalyzer\<lparr> sceneCuts := [0] \<rparr>"
    by (simp add: analyzeFrame_def paused_video_def)
  have g: "metricsCutRate (getMetrics (newFrameAnalyzer\<lparr> sceneCuts := [0] \<rparr>)) = 10 / 3"
    by (simp add: getMetrics_def newFrameAnalyzer_def SCENE_CUT_WINDOW_def)
  show ?thesis
    by (simp add: stale_scroll_events a b c d e f g RAPID_SCROLL_WINDOW_def)
       (simp add: newFrameAnalyzer_def SCENE_CUT_WINDOW_def)
qed

text \<open>
  What the intake paths do guarantee: right after the scroll listener has run, after a
  poll that saw a new height, and after a frame has been analysed, every retained event
  is younger than its window, and the cut rate that \<^verbatim>\<open>analyzeFrame\<close> returns
  counts exactly the retained cuts.
\<close>

theorem eviction_at_intake:
  "(\<forall>e \<in> set (scrollEvents (scrollHandler now scrollY d)). now - time e < RAPID_SCROLL_WINDOW)
   \<and> (currentHeight \<noteq> lastDOMHeight d \<longrightarrow>
        (\<forall>t \<in> set (domHeightChanges (domPoll now currentHeight d)). now - t < RAPID_SCROLL_WINDOW))
   \<and> (\<forall>t \<in> set (sceneCuts (snd (analyzeCaptured now data fa))). now - t < CUT_WINDOW fa)
   \<and> cutRate (fst (analyzeCaptured now data fa))
       = real (length (sceneCuts (snd (analyzeCaptured now data fa))))
         / (real_of_int (CUT_WINDOW fa) / 1000) * 10"
  by (simp add: scrollHandler_def domPoll_def analyzeCaptured_def Let_def)

text \<open>
  A second scroll event at 12000 ms evicts the one from 1000 ms; a second height change
  at 20000 ms evicts the one from 500 ms; a frame analysed at 3001 ms evicts a cut from
  time 0.
\<close>

theorem eviction_at_intake_witness:
  "scrollEvents (scrollHandler 12000 5000 stale_scroll)
     = [\<lparr> time = 12000, velocity = 0, dy = 0 \<rparr>]
   \<and> domHeightChanges (domPoll 20000 4000 (domPoll 500 3000 (newDetector 0 0 2000))) = [20000]
   \<and> sceneCuts (snd (analyzeCaptured 3001 [0, 0, 0, 255] (newFrameAnalyzer\<lparr> sceneCuts := [0] \<rparr>))) = []"
proof -
  have a: "scrollEvents (scrollHandler 12000 5000 stale_scroll)
     = [\<lparr> time = 12000, velocity = 0, dy = 0 \<rparr>]"
    by (simp add: stale_scroll_def scrollHandler_def newDetector_def RAPID_SCROLL_WINDOW_def Let_def)
  have b: "domHeightChanges (domPoll 20000 4000 (domPoll 500 3000 (newDetector 0 0 2000))) = [20000]"
    by (simp add: domPoll_def newDetector_def RAPID_SCROLL_WINDOW_def)
  have w: "CUT_WINDOW (newFrameAnalyzer\<lparr> sceneCuts := [0] \<rparr>) = 3000"
    by (simp add: newFrameAnalyzer_def SCENE_CUT_WINDOW_def)
  have "sceneCuts (snd (analyzeCaptured 3001 [0, 0, 0, 255] (newFrameAnalyzer\<lparr> sceneCuts := [0] \<rparr>)))
      = filter (\<lambda>t. 3001 - t < 3000) [0]"
    by (simp add: analyzeCaptured_def Let_def w) (simp add: newFrameAnalyzer_def)
  then have c: "sceneCuts (snd (analyzeCaptured 3001 [0, 0, 0, 255] (newFrameAnalyzer\<lparr> sceneCuts := [0] \<rparr>))) = []"
    by simp
  have "\<forall>t \<in> set (sceneCuts (snd (analyzeCaptured 3001 [0, 0, 0, 255] (newFrameAnalyzer\<lparr> sceneCuts := [0] \<rparr>)))).
      3001 - t < CUT_WINDOW (newFrameAnalyzer\<lparr> sceneCuts := [0] \<rparr>)"
    using eviction_at_intake [of 3001 0 stale_scroll 0 "[0, 0, 0, 255]" "newFrameAnalyzer\<lparr> sceneCuts := [0] \<rparr>"]
    by blast
  with a b c show ?thesis by (simp only: simp_thms)
qed

section \<open>Properties of the frame analyzer\<close>

lemma analyzeFrame_null:
  assumes "videoElement = None
     \<or> (\<exists>v. videoElement = Some v
            \<and> (paused v \<or> ended v \<or> readyState v < 2 \<or> videoWidth v = 0
                \<or> (\<exists>e. pixels v = Inl e)))"
  shows "analyzeFrame now videoElement fa = (None, fa)"
  using assms by (auto simp: analyzeFrame_def split: option.splits sum.splits)

lemma pick_video_playing:
  "fst (pick_video v best) = Some w \<Longrightarrow> fst best = Some w \<or> (w = v \<and> \<not> paused v \<and> \<not> ended v)"
  by (auto simp: pick_video_def split: if_splits)

text \<open>
  Claim C9 (capture failure never throws). For a missing, paused or ended video, one
  without readable dimensions, or one whose pixel read raises, \<^verbatim>\<open>analyzeFrame\<close>
  returns \<^verbatim>\<open>null\<close> and leaves the analyzer unchanged; the result type has no
  exception, as the \<^verbatim>\<open>catch\<close> clause absorbs every one. A sampling tick over
  videos each of which is paused, ended, without dimensions or unreadable leaves the
  whole detector unchanged.
\<close>

theorem capture_failure_is_null:
  "((videoElement = None
      \<or> (\<exists>v. videoElement = Some v
            \<and> (paused v \<or> ended v \<or> readyState v < 2 \<or> videoWidth v = 0
                \<or> (\<exists>e. pixels v = Inl e))))
     \<longrightarrow> analyzeFrame now videoElement fa = (None, fa))
   \<and> ((\<forall>v \<in> set (videos d). paused v \<or> ended v \<or> readyState v < 2 \<or> videoWidth v = 0
                                \<or> (\<exists>e. pixels v = Inl e))
     \<longrightarrow> frameTick now d = d)"
proof -
  have tick: "frameTick now d = d"
    if bad: "\<forall>v \<in> set (videos d). paused v \<or> ended v \<or> readyState v < 2 \<or> videoWidth v = 0
                                  \<or> (\<exists>e. pixels v = Inl e)"
  proof (cases "getActiveVideo (videos d)")
    case None
    then show ?thesis by (simp add: frameTick_def analyzeActiveVideo_def)
  next
    case (Some v)
    have mem: "fst (fold pick_video vs best) = Some w \<Longrightarrow> fst best = Some w \<or> w \<in> set vs"
      for vs best w
    proof (induction vs arbitrary: best)
      case Nil
      then show ?case by simp
    next
      case (Cons x xs)
      then show ?case using pick_video_playing [of x best w] by fastforce
    qed
    from Some have "v \<in> set (videos d)"
      using mem [of "videos d" "(None, 0)" v] by (simp add: getActiveVideo_def)
    with bad have "paused v \<or> ended v \<or> readyState v < 2 \<or> videoWidth v = 0
        \<or> (\<exists>e. pixels v = Inl e)" by blast
    then have "analyzeFrame now (Some v) (frameAnalyzer d) = (None, frameAnalyzer d)"
      by (intro analyzeFrame_null) auto
    with Some show ?thesis by (simp add: frameTick_def analyzeActiveVideo_def)
  qed
  show ?thesis using analyzeFrame_null [of videoElement now fa] tick by blast
qed

text \<open>
  A cross-origin video on an analyzer that holds a cut and seven frames, a paused video,
  and a sampling tick of a detector whose only video is cross-origin.
\<close>

theorem capture_failure_is_null_witness:
  "analyzeFrame 500 (Some cross_origin_video) (newFrameAnalyzer\<lparr> sceneCuts := [0], frameCount := 7 \<rparr>)
     = (None, newFrameAnalyzer\<lparr> sceneCuts := [0], frameCount := 7 \<rparr>)
   \<and> analyzeFrame 500 (Some paused_video) newFrameAnalyzer = (None, newFrameAnalyzer)
   \<and> frameTick 500 ((newDetector 0 0 2000)\<lparr> videos := [cross_origin_video] \<rparr>)
     = (newDetector 0 0 2000)\<lparr> videos := [cross_origin_video] \<rparr>"
proof -
  have x: "\<exists>v. Some cross_origin_video = Some v
            \<and> (paused v \<or> ended v \<or> readyState v < 2 \<or> videoWidth v = 0
                \<or> (\<exists>e. pixels v = Inl e))"
    by (simp add: cross_origin_video_def)
  have p: "\<exists>v. Some paused_video = Some v
            \<and> (paused v \<or> ended v \<or> readyState v < 2 \<or> videoWidth v = 0
                \<or> (\<exists>e. pixels v = Inl e))"
    by (simp add: paused_video_def)
  have vs: "\<forall>v \<in> set (videos ((newDetector 0 0 2000)\<lparr> videos := [cross_origin_video] \<rparr>)).
      paused v \<or> ended v \<or> readyState v < 2 \<or> videoWidth v = 0 \<or> (\<exists>e. pixels v = Inl e)"
    by (simp add: cross_origin_video_def)
  show ?thesis
    using capture_failure_is_null
        [of "Some cross_origin_video" 500 "newFrameAnalyzer\<lparr> sceneCuts := [0], frameCount := 7 \<rparr>"
            "(newDetector 0 0 2000)\<lparr> videos := [cross_origin_video] \<rparr>"] x vs
      capture_failure_is_null [of "Some paused_video" 500 newFrameAnalyzer "newDetector 0 0 2000"] p
    by blast
qed

end
